theory Spec2Isabelle
  imports Complex_Main "HOL-Library.Sublist"
begin

section \<open>sgflib: data model\<close>

text \<open>
  The development follows \<^verbatim>\<open>src/sgflib.py\<close>.  A Python \<^verbatim>\<open>str\<close> is modelled by
  \<^typ>\<open>string\<close>, whose characters are the code points U+0000 .. U+00FF (what the parser's
  default \<^verbatim>\<open>latin-1\<close> decoding produces); a \<^verbatim>\<open>bytes\<close> object is a \<^typ>\<open>string\<close> too, one
  character per byte.  Exceptions are values of the type \<open>error\<close>; a function that may
  raise returns \<open>error + 'a\<close>, with \<open>Inl\<close> for the exception.
\<close>

datatype error =
    EndOfDataParseError
  | TreeParseError
  | NodePropertyParseError
  | PropertyValueParseError
  | MergeError_games nat
  | MergeError_differ string string string
  | PropertyError
  | IndexError
  | TypeError
  | AttributeError
  | ValueError
  | UnicodeDecodeError
  | UnicodeEncodeError
  | LookupError
  | NotModelled

text \<open>
  \<open>MergeError_games n\<close> is the \<^verbatim>\<open>MergeError\<close> of \<^verbatim>\<open>Collection.merge\<close> for a collection of
  \<open>n\<close> games; \<open>MergeError_differ pid self_value other_value\<close> is the \<^verbatim>\<open>MergeError\<close> of
  \<^verbatim>\<open>Node.merge_differing_scalar_property_values\<close>, whose message holds the property ID and
  the two values.  \<open>IndexError\<close> to \<open>LookupError\<close> are Python's built-in exceptions.
  \<open>NotModelled\<close> is no exception: it marks an input that leaves the part of the Python
  library that is modelled here (a code point above U+00FF, a codec other than ASCII,
  Latin-1 and UTF-8).
\<close>

datatype pvalue = S string | L "string list"

text \<open>A \<^verbatim>\<open>Node\<close> is a \<^verbatim>\<open>dict\<close>: keys in insertion order, each key once.\<close>

type_synonym node = "(string \<times> pvalue) list"

datatype gametree = GameTree (nodes: "node list") (branches: "gametree list")

type_synonym collection = "gametree list"

text \<open>\<^verbatim>\<open>self[k] = v\<close>: an existing key keeps its place, a new key goes to the end.\<close>

fun node_set :: "node \<Rightarrow> string \<Rightarrow> pvalue \<Rightarrow> node" where
  "node_set [] k v = [(k, v)]"
| "node_set ((k', v') # n) k v =
     (if k' = k then (k, v) # n else (k', v') # node_set n k v)"

text \<open>\<^verbatim>\<open>del self[k]\<close>.\<close>

definition node_del :: "node \<Rightarrow> string \<Rightarrow> node" where
  "node_del n k = filter (\<lambda>p. fst p \<noteq> k) n"

text \<open>Python's truth value of a property value: the empty string and the empty list are false.\<close>

fun truthy :: "pvalue \<Rightarrow> bool" where
  "truthy (S s) = (s \<noteq> [])"
| "truthy (L xs) = (xs \<noteq> [])"

subsection \<open>Property metadata\<close>

definition list_properties :: "string set" where
  "list_properties = {''AB'', ''AE'', ''AR'', ''AW'', ''CR'', ''DD'', ''LB'', ''LN'', ''MA'',
     ''SL'', ''SQ'', ''TB'', ''TR'', ''TW'', ''VW''}"

definition scalar_properties :: "string set" where
  "scalar_properties = {''AN'', ''AP'', ''AS'', ''B'', ''BL'', ''BM'', ''BR'', ''BT'', ''C'',
     ''CA'', ''CP'', ''DM'', ''DO'', ''DT'', ''EV'', ''FF'', ''FG'', ''GB'', ''GC'', ''GM'',
     ''GN'', ''GW'', ''HA'', ''HO'', ''IP'', ''IT'', ''IY'', ''KM'', ''KO'', ''MN'', ''N'',
     ''OB'', ''ON'', ''OT'', ''OW'', ''PB'', ''PC'', ''PL'', ''PM'', ''PW'', ''RE'', ''RO'',
     ''RU'', ''SE'', ''SO'', ''ST'', ''SU'', ''SZ'', ''TE'', ''TM'', ''UC'', ''US'', ''V'',
     ''W'', ''WL'', ''WR'', ''WT''}"

definition text_properties :: "string set" where
  "text_properties = {''AN'', ''AP'', ''AS'', ''BR'', ''BT'', ''C'', ''CA'', ''CP'', ''DT'',
     ''EV'', ''FG'', ''GC'', ''GN'', ''IP'', ''IY'', ''LB'', ''N'', ''ON'', ''OT'', ''PB'',
     ''PC'', ''PW'', ''RE'', ''RO'', ''RU'', ''SO'', ''SU'', ''US'', ''WR'', ''WT''}"

definition real_properties :: "string set" where
  "real_properties = {''KM'', ''BL'', ''TM'', ''V'', ''WL''}"

definition root_only_properties :: "string set" where
  "root_only_properties = {''AP'', ''CA'', ''FF'', ''GM'', ''ST'', ''SZ'', ''AN'', ''BR'',
     ''BT'', ''CP'', ''DT'', ''EV'', ''GN'', ''GC'', ''ON'', ''OT'', ''PB'', ''PW'', ''PC'',
     ''RE'', ''RO'', ''RU'', ''SO'', ''TM'', ''US'', ''WR'', ''WT''}"

definition setup_properties :: "string set" where
  "setup_properties = {''AB'', ''AW'', ''AE'', ''PL''}"

definition root_properties :: "string set" where
  "root_properties = root_only_properties \<union> setup_properties"

definition move_properties :: "string set" where
  "move_properties = {''B'', ''W'', ''KO'', ''MN'', ''BM'', ''DO'', ''IT'', ''TE'', ''BL'',
     ''OB'', ''OW'', ''WL''}"

text \<open>\<^verbatim>\<open>move_required_properties = {'B', 'W'}\<close>, as a list so that it can be filtered.\<close>

definition move_required_properties :: "string list" where
  "move_required_properties = [''B'', ''W'']"

text \<open>
  An entry of an ignore set: the built-in \<^verbatim>\<open>any\<close> (every value is ignored) or one value.
  \<^verbatim>\<open>Node.ignore_property_values\<close> is the class-level default table.
\<close>

datatype ignore_value = Any | Val string

definition default_ignore_property_values :: "string \<Rightarrow> ignore_value set option" where
  "default_ignore_property_values =
     [''RE'' \<mapsto> {Val ''?''}, ''AP'' \<mapsto> {Any}]"

text \<open>\<^verbatim>\<open>d.get(property_id, set())\<close>.\<close>

definition get_or_empty :: "(string \<Rightarrow> ignore_value set option) \<Rightarrow> string \<Rightarrow> ignore_value set" where
  "get_or_empty d k = (case d k of None \<Rightarrow> {} | Some s \<Rightarrow> s)"

datatype ntype = Root | Setup | Move

subsection \<open>String helpers of the Python library\<close>

text \<open>
  \<^verbatim>\<open>str.isspace\<close> on the code points below 256: TAB..CR, FS..US, space, NEL and NBSP.
\<close>

definition py_isspace :: "char \<Rightarrow> bool" where
  "py_isspace c = (let n = (of_char c :: nat)
     in (9 \<le> n \<and> n \<le> 13) \<or> (28 \<le> n \<and> n \<le> 32) \<or> n = 133 \<or> n = 160)"

definition py_strip :: "string \<Rightarrow> string" where
  "py_strip s = rev (dropWhile py_isspace (rev (dropWhile py_isspace s)))"

text \<open>
  \<^verbatim>\<open>str.lower\<close> on the code points below 256: A..Z and the Latin-1 capitals
  U+00C0 .. U+00DE (without the multiplication sign U+00D7) move up by 32.
\<close>

definition py_lower_char :: "char \<Rightarrow> char" where
  "py_lower_char c = (let n = (of_char c :: nat)
     in if (65 \<le> n \<and> n \<le> 90) \<or> (192 \<le> n \<and> n \<le> 222 \<and> n \<noteq> 215)
        then char_of (n + 32) else c)"

definition py_lower :: "string \<Rightarrow> string" where
  "py_lower s = map py_lower_char s"

subsection \<open>\<^verbatim>\<open>float\<close> and \<^verbatim>\<open>math.isclose\<close>\<close>

text \<open>
  A finite double is modelled by the rational number that is its value; the sign of a
  zero is not modelled, as no comparison of the program tells \<^verbatim>\<open>-0.0\<close> from \<^verbatim>\<open>0.0\<close>.
\<close>

datatype pyfloat = Fin rat | PInf | NInf | NaN

text \<open>\<open>2 ^ n\<close> for an integer \<open>n\<close> that is not negative, by repeated squaring.\<close>

function pow2 :: "int \<Rightarrow> int" where
  "pow2 n = (if n \<le> 0 then 1
             else if even n then pow2 (n div 2) * pow2 (n div 2)
             else 2 * pow2 (n div 2) * pow2 (n div 2))"
  by pat_completeness auto
termination
  by (relation "measure nat") auto

declare pow2.simps [simp del]

text \<open>The number of binary digits of a positive integer.\<close>

function bit_length :: "int \<Rightarrow> int" where
  "bit_length n = (if n \<le> 0 then 0 else 1 + bit_length (n div 2))"
  by pat_completeness auto
termination
  by (relation "measure nat") auto

declare bit_length.simps [simp del]

text \<open>The fraction \<open>n / d\<close> (with \<open>0 \<le> n\<close> and \<open>0 < d\<close>) rounded to an integer, ties to even.\<close>

definition round_half_even :: "int \<Rightarrow> int \<Rightarrow> int" where
  "round_half_even n d =
     (let f = n div d; r = n mod d
      in if 2 * r < d then f else if d < 2 * r then f + 1
         else if even f then f else f + 1)"

text \<open>
  The rounding of IEEE 754 binary64 arithmetic, to the nearest double with ties to the
  even significand, for the value \<open>p / q\<close> with \<open>0 \<le> p\<close> and \<open>0 < q\<close> and the sign \<open>neg\<close>.
  For a value other than 0, \<open>f\<close> is the exponent with \<open>2^f \<le> p / q < 2^(f + 1)\<close>, which
  is the difference \<open>k\<close> of the bit lengths or one less; the exponent of the last place is
  \<open>e = f - 52\<close>, but not below \<open>-1074\<close> (the subnormal range); the significand \<open>m\<close> is
  \<open>p / q / 2^e\<close> rounded to an integer; the result is \<open>m * 2^e\<close>, or an infinity if that is
  \<open>2^1024\<close> or more.
\<close>

definition round_frac :: "bool \<Rightarrow> int \<Rightarrow> int \<Rightarrow> pyfloat" where
  "round_frac neg p q =
     (if p = 0 then Fin 0
      else
        let k = bit_length p - bit_length q;
            f = (if (if 0 \<le> k then pow2 k * q \<le> p else q \<le> p * pow2 (- k))
                 then k else k - 1);
            e = max (f - 52) (- 1074);
            m = (if 0 \<le> e then round_half_even p (q * pow2 e)
                 else round_half_even (p * pow2 (- e)) q);
            v = (if 0 \<le> e then of_int (m * pow2 e) else of_int m / of_int (pow2 (- e)))
        in if 971 < e \<or> (e = 971 \<and> pow2 53 \<le> m) then (if neg then NInf else PInf)
           else Fin (if neg then - v else v))"

text \<open>The double nearest to a rational number: the result of an operation on doubles.\<close>

definition round_double :: "rat \<Rightarrow> pyfloat" where
  "round_double x = round_frac (x < 0) (fst (quotient_of \<bar>x\<bar>)) (snd (quotient_of \<bar>x\<bar>))"

text \<open>
  \<^verbatim>\<open>float(s)\<close> for a string: blanks are stripped, then an optional sign, then
  \<^verbatim>\<open>inf\<close>, \<^verbatim>\<open>infinity\<close> or \<^verbatim>\<open>nan\<close> in any case, or a decimal literal: digits with an
  optional fraction and an optional exponent, where single underscores may separate
  digits.  Anything else raises \<^verbatim>\<open>ValueError\<close> (\<open>None\<close>).  The value of a decimal literal
  is rounded to the nearest double, as Python does; a literal beyond the range of the
  doubles gives an infinity.
\<close>

definition is_digit :: "char \<Rightarrow> bool" where
  "is_digit c = (let n = (of_char c :: nat) in 48 \<le> n \<and> n \<le> 57)"

text \<open>A digit part: a digit, then digits each preceded by at most one underscore.\<close>

fun digitpart_tail :: "string \<Rightarrow> bool" where
  "digitpart_tail [] = True"
| "digitpart_tail [c] = is_digit c"
| "digitpart_tail (c # d # r) =
     (if c = CHR ''_'' then is_digit d \<and> digitpart_tail r
      else is_digit c \<and> digitpart_tail (d # r))"

definition digitpart :: "string \<Rightarrow> bool" where
  "digitpart s = (case s of [] \<Rightarrow> False | c # r \<Rightarrow> is_digit c \<and> digitpart_tail r)"

definition digits_of :: "string \<Rightarrow> string" where
  "digits_of s = filter is_digit s"

definition digits_val :: "string \<Rightarrow> int" where
  "digits_val s = foldl (\<lambda>a c. 10 * a + (of_char c - 48)) 0 (digits_of s)"

text \<open>Split at the first character that satisfies \<open>P\<close> (which is dropped).\<close>

definition split_first :: "(char \<Rightarrow> bool) \<Rightarrow> string \<Rightarrow> string \<times> string option" where
  "split_first P s =
     (case dropWhile (\<lambda>c. \<not> P c) s of
        [] \<Rightarrow> (s, None)
      | _ # r \<Rightarrow> (takeWhile (\<lambda>c. \<not> P c) s, Some r))"

definition split_sign :: "string \<Rightarrow> bool \<times> string" where
  "split_sign s =
     (case s of
        c # r \<Rightarrow> if c = CHR ''-'' then (True, r) else if c = CHR ''+'' then (False, r)
                 else (False, s)
      | [] \<Rightarrow> (False, s))"

text \<open>
  The digits before the exponent: their value as one integer, and the number of digits
  after the point.
\<close>

definition float_mantissa :: "string \<Rightarrow> (int \<times> int) option" where
  "float_mantissa m =
     (case split_first (\<lambda>c. c = CHR ''.'') m of
        (ip, None) \<Rightarrow> if digitpart ip then Some (digits_val ip, 0) else None
      | (ip, Some fp) \<Rightarrow>
          if (ip = [] \<or> digitpart ip) \<and> (fp = [] \<or> digitpart fp) \<and> \<not> (ip = [] \<and> fp = [])
          then Some (digits_val (ip @ fp), int (length (digits_of fp)))
          else None)"

definition float_exponent :: "string option \<Rightarrow> int option" where
  "float_exponent e =
     (case e of
        None \<Rightarrow> Some 0
      | Some es \<Rightarrow>
          (case split_sign es of
             (neg, ds) \<Rightarrow>
               if digitpart ds
               then Some (if neg then - digits_val ds else digits_val ds)
               else None))"

definition py_float :: "string \<Rightarrow> pyfloat option" where
  "py_float s =
     (case split_sign (py_strip s) of
        (neg, body) \<Rightarrow>
          if py_lower body = ''inf'' \<or> py_lower body = ''infinity''
          then Some (if neg then NInf else PInf)
          else if py_lower body = ''nan'' then Some NaN
          else (case split_first (\<lambda>c. c = CHR ''e'' \<or> c = CHR ''E'') body of
                  (m, e) \<Rightarrow>
                    (case (float_mantissa m, float_exponent e) of
                       (Some (digits, places), Some ex) \<Rightarrow>
                         if 0 \<le> ex - places
                         then Some (round_frac neg (digits * 10 ^ nat (ex - places)) 1)
                         else Some (round_frac neg digits (10 ^ nat (places - ex)))
                     | _ \<Rightarrow> None)))"

text \<open>
  The arithmetic of \<^verbatim>\<open>math.isclose\<close> on doubles: each operation rounds its exact result;
  \<open>fle\<close> is the comparison \<^verbatim>\<open><=\<close>, false for a \<^verbatim>\<open>nan\<close>.
\<close>

fun fsub :: "pyfloat \<Rightarrow> pyfloat \<Rightarrow> pyfloat" where
  "fsub (Fin a) (Fin b) = round_double (a - b)"
| "fsub NaN _ = NaN"
| "fsub _ NaN = NaN"
| "fsub PInf PInf = NaN"
| "fsub NInf NInf = NaN"
| "fsub PInf _ = PInf"
| "fsub NInf _ = NInf"
| "fsub _ PInf = NInf"
| "fsub _ NInf = PInf"

fun fmul :: "pyfloat \<Rightarrow> pyfloat \<Rightarrow> pyfloat" where
  "fmul (Fin a) (Fin b) = round_double (a * b)"
| "fmul NaN _ = NaN"
| "fmul _ NaN = NaN"
| "fmul (Fin a) PInf = (if a = 0 then NaN else if 0 < a then PInf else NInf)"
| "fmul (Fin a) NInf = (if a = 0 then NaN else if 0 < a then NInf else PInf)"
| "fmul PInf (Fin b) = (if b = 0 then NaN else if 0 < b then PInf else NInf)"
| "fmul NInf (Fin b) = (if b = 0 then NaN else if 0 < b then NInf else PInf)"
| "fmul PInf PInf = PInf"
| "fmul NInf NInf = PInf"
| "fmul PInf NInf = NInf"
| "fmul NInf PInf = NInf"

fun fabs :: "pyfloat \<Rightarrow> pyfloat" where
  "fabs (Fin a) = Fin \<bar>a\<bar>"
| "fabs PInf = PInf"
| "fabs NInf = PInf"
| "fabs NaN = NaN"

fun fle :: "pyfloat \<Rightarrow> pyfloat \<Rightarrow> bool" where
  "fle (Fin a) (Fin b) = (a \<le> b)"
| "fle NaN _ = False"
| "fle _ NaN = False"
| "fle NInf _ = True"
| "fle _ PInf = True"
| "fle _ _ = False"

fun feq :: "pyfloat \<Rightarrow> pyfloat \<Rightarrow> bool" where
  "feq (Fin a) (Fin b) = (a = b)"
| "feq PInf PInf = True"
| "feq NInf NInf = True"
| "feq _ _ = False"

fun isinf :: "pyfloat \<Rightarrow> bool" where
  "isinf PInf = True"
| "isinf NInf = True"
| "isinf _ = False"

text \<open>
  \<^verbatim>\<open>math.isclose(a, b)\<close> with its defaults \<^verbatim>\<open>rel_tol=1e-09\<close> and \<^verbatim>\<open>abs_tol=0.0\<close>, as
  CPython computes it: equal values are close, an infinity is close to nothing else, and
  otherwise, with \<^verbatim>\<open>diff = fabs(b - a)\<close>, the result is
  \<^verbatim>\<open>diff <= fabs(rel_tol * b) or diff <= fabs(rel_tol * a) or diff <= abs_tol\<close>.
\<close>

definition rel_tol :: pyfloat where
  "rel_tol = round_double (1 / 10 ^ 9)"

definition isclose :: "pyfloat \<Rightarrow> pyfloat \<Rightarrow> bool" where
  "isclose a b =
     (if feq a b then True
      else if isinf a \<or> isinf b then False
      else let diff = fabs (fsub b a)
           in fle diff (fabs (fmul rel_tol b)) \<or> fle diff (fabs (fmul rel_tol a))
              \<or> fle diff (Fin 0))"

section \<open>\<^verbatim>\<open>Node\<close>\<close>

text \<open>
  \<^verbatim>\<open>Node.node_type\<close>.  \<^verbatim>\<open>props & node_type_properties\<close> is non-empty iff some key of the node
  lies in the set; the dictionary \<^verbatim>\<open>node_types\<close> is visited in the order root, setup, move.
\<close>

definition node_type :: "node \<Rightarrow> error + ntype option" where
  "node_type n =
     (let props = map fst n in
      if props = [] \<or> (case map_of n ''C'' of Some v \<Rightarrow> \<not> truthy v | None \<Rightarrow> False)
      then Inr None
      else if list_ex (\<lambda>k. k \<in> root_properties) props then Inr (Some Root)
      else if list_ex (\<lambda>k. k \<in> setup_properties) props then Inr (Some Setup)
      else if list_ex (\<lambda>k. k \<in> move_properties) props then Inr (Some Move)
      else Inl PropertyError)"

text \<open>\<^verbatim>\<open>set(self.keys()) & self.move_required_properties\<close>, listed in the order B, W.\<close>

definition players :: "node \<Rightarrow> string list" where
  "players n = filter (\<lambda>p. p \<in> set (map fst n)) move_required_properties"

text \<open>\<^verbatim>\<open>Node.equivalent\<close>.\<close>

definition equivalent :: "node \<Rightarrow> node \<Rightarrow> error + bool" where
  "equivalent self other =
     (case node_type self of
        Inl e \<Rightarrow> Inl e
      | Inr my_type \<Rightarrow>
     (case node_type other of
        Inl e \<Rightarrow> Inl e
      | Inr other_type \<Rightarrow>
          if my_type = None \<or> other_type = None then Inr True
          else if my_type \<noteq> other_type then Inr False
          else if my_type = Some Move then
            (if length (players self) \<noteq> 1 then Inl PropertyError
             else if length (players other) \<noteq> 1 then Inl PropertyError
             else if players self \<noteq> players other then Inr False
             else if map_of self (hd (players self)) \<noteq> map_of other (hd (players self))
             then Inr False
             else Inr True)
          else Inr True))"

text \<open>\<^verbatim>\<open>Node.prefix_comment\<close>; \<^verbatim>\<open>not comment\<close> holds for \<^verbatim>\<open>None\<close> and for the empty string.\<close>

definition node_prefix_comment :: "string option \<Rightarrow> node \<Rightarrow> error + node" where
  "node_prefix_comment comment self =
     (case comment of
        None \<Rightarrow> Inr self
      | Some c \<Rightarrow>
          if c = [] then Inr self
          else (case map_of self ''C'' of
                  None \<Rightarrow> Inr (node_set self ''C'' (S c))
                | Some (L xs) \<Rightarrow> Inl AttributeError
                | Some (S old) \<Rightarrow>
                    if py_strip old \<noteq> []
                    then Inr (node_set self ''C'' (S (c @ [CHR 0x0A] @ old)))
                    else Inr (node_set self ''C'' (S c))))"

text \<open>
  \<^verbatim>\<open>Node.merge_differing_scalar_property_values\<close>: called for a property that \<^verbatim>\<open>self\<close> holds
  with a value other than \<^verbatim>\<open>other_value\<close>.
\<close>

definition merge_differing_scalar_property_values ::
  "node \<Rightarrow> string \<Rightarrow> string \<Rightarrow> ignore_value set \<Rightarrow> error + node" where
  "merge_differing_scalar_property_values self property_id other_value ignore_values =
     (case map_of self property_id of
        None \<Rightarrow> Inl TypeError
      | Some (L xs) \<Rightarrow> Inl TypeError
      | Some (S v) \<Rightarrow>
          let self1 = (if Val v \<in> ignore_values then node_del self property_id else self);
              self_value = (if Val v \<in> ignore_values then None else Some v)
          in if other_value = [] then Inr self1
             else if self_value = None \<or> self_value = Some []
             then Inr (node_set self1 property_id (S other_value))
             else if property_id \<in> real_properties then
               (case py_float v of
                  None \<Rightarrow> Inl ValueError
                | Some a \<Rightarrow>
                    (case py_float other_value of
                       None \<Rightarrow> Inl ValueError
                     | Some b \<Rightarrow>
                         if isclose a b then Inr self1
                         else if property_id \<in> text_properties
                                 \<and> py_lower v = py_lower other_value
                         then Inr self1
                         else Inl (MergeError_differ property_id v other_value)))
             else if property_id \<in> text_properties \<and> py_lower v = py_lower other_value
             then Inr self1
             else Inl (MergeError_differ property_id v other_value))"

text \<open>
  The elements that \<^verbatim>\<open>set(value)\<close> collects: the entries of a list, the one-character
  strings of a string.
\<close>

fun elements :: "pvalue \<Rightarrow> string list" where
  "elements (L xs) = xs"
| "elements (S s) = map (\<lambda>c. [c]) s"

text \<open>
  One round of the loop of \<^verbatim>\<open>Node.merge\<close>, for the item \<open>(property_id, other_value)\<close> of
  \<^verbatim>\<open>other\<close>.  \<open>comment\<close> is the prefix after its first lines (\<^verbatim>\<open>''\<close> for \<^verbatim>\<open>None\<close>, else
  the prefix and a line feed).

  The list case extends the list of \<^verbatim>\<open>self\<close> by the Python set \<^verbatim>\<open>other_values - self_values\<close>.
  The order in which a set of strings is iterated depends on the hashes of the strings,
  which Python randomises for each process; the model takes it as the parameter
  \<open>set_order\<close>, which maps a list of the members of the set (each once) to the order
  of the iteration.
\<close>

definition merge_property ::
  "(string list \<Rightarrow> string list) \<Rightarrow> string \<Rightarrow> bool \<Rightarrow> (string \<Rightarrow> ignore_value set option)
     \<Rightarrow> node \<Rightarrow> string \<times> pvalue \<Rightarrow> error + node" where
  "merge_property set_order comment comments_everywhere ignore_property_values self item =
     (case item of (property_id, other_value) \<Rightarrow>
      let ignore_values = get_or_empty default_ignore_property_values property_id
                          \<union> get_or_empty ignore_property_values property_id
      in
      if property_id \<in> scalar_properties \<and> Any \<in> ignore_values then Inr self
      else
      (case (if property_id \<in> scalar_properties
             then (case other_value of
                     S s \<Rightarrow> Inr (Val s \<in> ignore_values)
                   | L xs \<Rightarrow> Inl TypeError)
             else Inr False) of
         Inl e \<Rightarrow> Inl e
       | Inr True \<Rightarrow> Inr self
       | Inr False \<Rightarrow>
           if property_id = ''C'' then
             (case other_value of
                L xs \<Rightarrow> Inl AttributeError
              | S ov \<Rightarrow>
                  (case map_of self ''C'' of
                     None \<Rightarrow>
                       Inr (node_set self ''C''
                              (S ((if comments_everywhere then comment else []) @ py_strip ov)))
                   | Some (L xs) \<Rightarrow>
                       if xs \<noteq> [] then Inl AttributeError
                       else Inr (node_set self ''C''
                              (S ((if comments_everywhere then comment else []) @ py_strip ov)))
                   | Some (S sv) \<Rightarrow>
                       if sv \<noteq> [] then
                         (if py_strip sv \<noteq> py_strip ov
                          then Inr (node_set self ''C''
                                 (S (py_strip sv @ [CHR 0x0A, CHR 0x0A]
                                     @ (if comments_everywhere then comment else [])
                                     @ py_strip ov)))
                          else Inr self)
                       else Inr (node_set self ''C''
                              (S ((if comments_everywhere then comment else []) @ py_strip ov)))))
           else
             (case map_of self property_id of
                Some self_value \<Rightarrow>
                  if property_id \<in> scalar_properties then
                    (if other_value \<noteq> self_value
                     then (case other_value of
                             S ov \<Rightarrow> merge_differing_scalar_property_values
                                       self property_id ov ignore_values
                           | L xs \<Rightarrow> Inl TypeError)
                     else Inr self)
                  else
                    (let extras = remdups (filter (\<lambda>x. x \<notin> set (elements self_value))
                                             (elements other_value))
                     in if extras \<noteq> [] then
                          (case self_value of
                             L xs \<Rightarrow> Inr (node_set self property_id (L (xs @ set_order extras)))
                           | S s \<Rightarrow> Inl AttributeError)
                        else Inr self)
              | None \<Rightarrow> Inr (node_set self property_id other_value))))"

fun merge_items ::
  "(string list \<Rightarrow> string list) \<Rightarrow> string \<Rightarrow> bool \<Rightarrow> (string \<Rightarrow> ignore_value set option)
     \<Rightarrow> node \<Rightarrow> (string \<times> pvalue) list \<Rightarrow> error + node" where
  "merge_items so c ce ign self [] = Inr self"
| "merge_items so c ce ign self (item # items) =
     (case merge_property so c ce ign self item of
        Inl e \<Rightarrow> Inl e
      | Inr self' \<Rightarrow> merge_items so c ce ign self' items)"

text \<open>
  \<^verbatim>\<open>Node.merge\<close>.  \<^verbatim>\<open>other\<close> is deep-copied first, which changes nothing in a model of
  values; \<^verbatim>\<open>ignore_property_values=None\<close> is the empty table \<open>Map.empty\<close>.
\<close>

definition node_merge ::
  "(string list \<Rightarrow> string list) \<Rightarrow> node \<Rightarrow> node \<Rightarrow> string option \<Rightarrow> bool
     \<Rightarrow> (string \<Rightarrow> ignore_value set option) \<Rightarrow> error + node" where
  "node_merge set_order self other comment comments_everywhere ignore_property_values =
     merge_items set_order
       (case comment of None \<Rightarrow> [] | Some c \<Rightarrow> c @ [CHR 0x0A])
       comments_everywhere ignore_property_values self other"

section \<open>\<^verbatim>\<open>GameTree\<close>\<close>

text \<open>The number of tree objects and nodes of a tree: the measure of the recursions below.\<close>

fun tsize :: "gametree \<Rightarrow> nat" where
  "tsize (GameTree ns bs) = 1 + length ns + sum_list (map tsize bs)"

definition tsizes :: "gametree list \<Rightarrow> nat" where
  "tsizes bs = sum_list (map tsize bs)"

text \<open>
  \<^verbatim>\<open>GameTree.prefix_comment\<close>: the prefix goes to the first node of the trunk, or, if the
  trunk is empty, to every branch in turn.
\<close>

fun gametree_prefix_comment :: "string option \<Rightarrow> gametree \<Rightarrow> error + gametree"
  and prefix_comment_branches :: "string option \<Rightarrow> gametree list \<Rightarrow> error + gametree list"
where
  "gametree_prefix_comment comment (GameTree ns bs) =
     (if comment = None \<or> comment = Some [] then Inr (GameTree ns bs)
      else (case ns of
              n # ns' \<Rightarrow>
                (case node_prefix_comment comment n of
                   Inl e \<Rightarrow> Inl e
                 | Inr n' \<Rightarrow> Inr (GameTree (n' # ns') bs))
            | [] \<Rightarrow>
                (case prefix_comment_branches comment bs of
                   Inl e \<Rightarrow> Inl e
                 | Inr bs' \<Rightarrow> Inr (GameTree [] bs'))))"
| "prefix_comment_branches comment [] = Inr []"
| "prefix_comment_branches comment (b # bs) =
     (case gametree_prefix_comment comment b of
        Inl e \<Rightarrow> Inl e
      | Inr b' \<Rightarrow>
          (case prefix_comment_branches comment bs of
             Inl e \<Rightarrow> Inl e
           | Inr bs' \<Rightarrow> Inr (b' # bs')))"

text \<open>\<^verbatim>\<open>GameTree(nodelist, branches, comment)\<close> for a list of nodes.\<close>

definition gametree_init ::
  "node list \<Rightarrow> gametree list \<Rightarrow> string option \<Rightarrow> error + gametree" where
  "gametree_init nodelist brs comment = gametree_prefix_comment comment (GameTree nodelist brs)"

text \<open>
  \<^verbatim>\<open>GameTree.normalize\<close>: while there are branches, a single branch is taken into the
  trunk; two or more branches are normalized each, and the loop ends.
\<close>

function gametree_normalize :: "gametree \<Rightarrow> gametree" where
  "gametree_normalize (GameTree ns bs) =
     (case bs of
        [] \<Rightarrow> GameTree ns []
      | [b] \<Rightarrow> gametree_normalize (GameTree (ns @ nodes b) (branches b))
      | b # c # cs \<Rightarrow> GameTree ns (map gametree_normalize (b # c # cs)))"
  by pat_completeness auto
termination
  apply (relation "measure tsize")
  apply simp
  subgoal for ns bs b l by (cases b) simp
  subgoal for ns bs b l c cs x
    using member_le_sum_list[of "tsize x" "map tsize bs"] apply auto
    done
  done

definition collection_normalize :: "collection \<Rightarrow> collection" where
  "collection_normalize c = map gametree_normalize c"

subsection \<open>\<^verbatim>\<open>GameTree.merge\<close>\<close>

text \<open>
  The first loop of \<^verbatim>\<open>GameTree.merge\<close>, over \<^verbatim>\<open>zip(itertools.count(), self, other)\<close>.  The
  result holds the nodes of \<^verbatim>\<open>self\<close> that were merged, the nodes of \<^verbatim>\<open>self\<close> and of
  \<^verbatim>\<open>other\<close> from the index where the loop stopped, and whether it stopped at a pair of nodes
  that are not equivalent (\<^verbatim>\<open>break\<close>) rather than at the end of a trunk (\<^verbatim>\<open>else\<close>).
\<close>

fun walk ::
  "(string list \<Rightarrow> string list) \<Rightarrow> string option \<Rightarrow> bool \<Rightarrow> (string \<Rightarrow> ignore_value set option)
     \<Rightarrow> node list \<Rightarrow> node list \<Rightarrow> error + (node list \<times> node list \<times> node list \<times> bool)" where
  "walk so c ce ign (my_node # ms) (other_node # os) =
     (case equivalent my_node other_node of
        Inl e \<Rightarrow> Inl e
      | Inr False \<Rightarrow> Inr ([], my_node # ms, other_node # os, True)
      | Inr True \<Rightarrow>
          (case node_merge so my_node other_node c ce ign of
             Inl e \<Rightarrow> Inl e
           | Inr merged \<Rightarrow>
               (case walk so c ce ign ms os of
                  Inl e \<Rightarrow> Inl e
                | Inr (pre, self_rest, other_rest, diverged) \<Rightarrow>
                    Inr (merged # pre, self_rest, other_rest, diverged))))"
| "walk so c ce ign ms os = Inr ([], ms, os, False)"

text \<open>
  What \<^verbatim>\<open>GameTree.merge\<close> has reached before its branch loops: it has returned with
  \<^verbatim>\<open>self\<close> in the state \<open>Done\<close>, or it goes on to merge the branches, with the trunk of
  \<^verbatim>\<open>self\<close>, \<^verbatim>\<open>self.branches\<close> and \<^verbatim>\<open>other.branches\<close> as \<open>Reconcile\<close> holds them.
\<close>

datatype prepared = Done gametree | Reconcile "node list" "gametree list" "gametree list"

text \<open>The branch \<^verbatim>\<open>GameTree([Node(C='')])\<close> that step in for the missing branches of \<^verbatim>\<open>self\<close>.\<close>

definition placeholder :: gametree where
  "placeholder = GameTree [[(''C'', S [])]] []"

text \<open>
  \<^verbatim>\<open>GameTree.merge\<close> up to the comment \<^verbatim>\<open># Merge branches:\<close>.  \<^verbatim>\<open>i == -1\<close> holds after the
  loop iff it had no round, that is iff one of the trunks is empty.
\<close>

definition merge_prepare ::
  "(string list \<Rightarrow> string list) \<Rightarrow> gametree \<Rightarrow> gametree \<Rightarrow> string option \<Rightarrow> bool
     \<Rightarrow> (string \<Rightarrow> ignore_value set option) \<Rightarrow> error + prepared" where
  "merge_prepare so self other comment ce ign =
     (case walk so comment ce ign (nodes self) (nodes other) of
        Inl e \<Rightarrow> Inl e
      | Inr (pre, self_rest, other_rest, True) \<Rightarrow>
          (case gametree_init other_rest (branches other) comment of
             Inl e \<Rightarrow> Inl e
           | Inr other_branch \<Rightarrow>
               Inr (Done (GameTree pre [GameTree self_rest (branches self), other_branch])))
      | Inr (pre, self_rest, other_rest, False) \<Rightarrow>
          if (nodes self = [] \<or> nodes other = []) \<and> nodes self \<noteq> [] \<and> branches other = []
          then Inr (Done self)
          else if (nodes self = [] \<or> nodes other = []) \<and> nodes self = [] \<and> branches self = []
          then (case nodes other of
                  [] \<Rightarrow> Inr (Done (GameTree [] (branches other)))
                | n # ns \<Rightarrow>
                    (case node_prefix_comment comment n of
                       Inl e \<Rightarrow> Inl e
                     | Inr n' \<Rightarrow> Inr (Done (GameTree (n' # ns) (branches other)))))
          else if length (nodes self) > length (nodes other) then
            (if branches other \<noteq> []
             then Inr (Reconcile pre [GameTree self_rest (branches self)] (branches other))
             else Inr (Done (GameTree (pre @ self_rest) (branches self))))
          else if length (nodes other) > length (nodes self) then
            (case gametree_init other_rest (branches other) comment of
               Inl e \<Rightarrow> Inl e
             | Inr other_branch \<Rightarrow>
                 Inr (Reconcile pre
                        (if branches self = [] then [placeholder] else branches self)
                        [other_branch]))
          else if branches other = [] then Inr (Done (GameTree pre (branches self)))
          else Inr (Reconcile pre
                      (if branches self = [] then [placeholder] else branches self)
                      (branches other)))"

text \<open>
  The inner loop over \<^verbatim>\<open>enumerate(other.branches[:])\<close> up to its \<^verbatim>\<open>break\<close>: the first
  branch of \<^verbatim>\<open>other\<close> whose first node is equivalent to the first node of \<^verbatim>\<open>self_branch\<close>,
  with the list that \<^verbatim>\<open>del other.branches[i]\<close> leaves.  An empty trunk makes
  \<^verbatim>\<open>self_branch[0]\<close> or \<^verbatim>\<open>other_branch[0]\<close> raise \<^verbatim>\<open>IndexError\<close>.
\<close>

fun find_match ::
  "gametree \<Rightarrow> gametree list \<Rightarrow> error + (gametree \<times> gametree list) option" where
  "find_match self_branch [] = Inr None"
| "find_match self_branch (other_branch # obs) =
     (case nodes self_branch of
        [] \<Rightarrow> Inl IndexError
      | m # ms \<Rightarrow>
          (case nodes other_branch of
             [] \<Rightarrow> Inl IndexError
           | n # ns \<Rightarrow>
               (case equivalent m n of
                  Inl e \<Rightarrow> Inl e
                | Inr True \<Rightarrow> Inr (Some (other_branch, obs))
                | Inr False \<Rightarrow>
                    (case find_match self_branch obs of
                       Inl e \<Rightarrow> Inl e
                     | Inr None \<Rightarrow> Inr None
                     | Inr (Some (found, rest)) \<Rightarrow> Inr (Some (found, other_branch # rest))))))"

text \<open>Sizes: what the termination of \<^verbatim>\<open>GameTree.merge\<close> rests on.\<close>

lemma tsize_prefix_comment:
  "gametree_prefix_comment c t = Inr t' \<Longrightarrow> tsize t' = tsize t"
  "prefix_comment_branches c bs = Inr bs' \<Longrightarrow> tsizes bs' = tsizes bs"
proof (induction c t and c bs arbitrary: t' and bs' rule: gametree_prefix_comment_prefix_comment_branches.induct)
  case (1 comment ns bs)
  then show ?case
    by (auto simp: tsizes_def split: if_splits list.splits sum.splits)
next
  case (2 comment)
  then show ?case by (simp add: tsizes_def)
next
  case (3 comment b bs)
  then show ?case
    by (auto simp: tsizes_def split: sum.splits)
qed

lemma tsize_pos [simp]: "0 < tsize t"
  by (cases t) simp

lemma walk_lengths:
  "walk so c ce ign ms os = Inr (pre, sr, orest, d) \<Longrightarrow>
     length ms = length pre + length sr \<and> length os = length pre + length orest
     \<and> (\<not> d \<longrightarrow> sr = [] \<or> orest = [])"
proof (induction so c ce ign ms os arbitrary: pre sr orest d rule: walk.induct)
  case (1 so c ce ign my_node ms other_node os)
  then show ?case
    by (auto split: sum.splits bool.splits prod.splits)
qed auto

lemma find_match_size:
  "find_match sb obs = Inr (Some (ob, rest)) \<Longrightarrow> tsize ob + tsizes rest = tsizes obs"
proof (induction obs arbitrary: ob rest)
  case Nil
  then show ?case by simp
next
  case (Cons a obs)
  then show ?case
    by (auto simp: tsizes_def split: list.splits sum.splits bool.splits option.splits)
qed

lemma find_match_smaller:
  assumes "find_match sb obs = Inr (Some (ob, rest))"
  shows "tsizes rest < tsizes obs" and "tsize ob \<le> tsizes obs"
  using find_match_size [OF assms] tsize_pos [of ob] by linarith+

lemma merge_prepare_size:
  assumes "merge_prepare so self other comment ce ign = Inr (Reconcile trunk sbs obs)"
  shows "tsizes sbs + tsizes obs < tsize self + tsize other"
proof -
  obtain ms bs where self: "self = GameTree ms bs" by (cases self)
  obtain os cs where other: "other = GameTree os cs" by (cases other)
  from assms obtain pre sr orest where
    w: "walk so comment ce ign ms os = Inr (pre, sr, orest, False)"
    unfolding merge_prepare_def self other
    by (auto split: sum.splits prod.splits bool.splits)
  from walk_lengths [OF w] have len: "length ms = length pre + length sr"
    "length os = length pre + length orest" "sr = [] \<or> orest = []"
    by auto
  show ?thesis
    using assms len w unfolding merge_prepare_def self other
    by (auto simp: tsizes_def placeholder_def gametree_init_def
          dest!: tsize_prefix_comment(1)
          split: if_splits sum.splits list.splits)
       (cases ms; simp)+
qed

text \<open>
  \<^verbatim>\<open>GameTree.merge\<close>, and its two loops over the branches as \<open>merge_branches\<close>: each branch
  of \<^verbatim>\<open>self\<close> in turn is merged with the first branch left in \<^verbatim>\<open>other\<close> that starts with
  an equivalent node.  \<open>merge_branches\<close> returns the branches of \<^verbatim>\<open>self\<close> and what is left
  of \<^verbatim>\<open>other.branches\<close>; these get the prefix and are appended to \<^verbatim>\<open>self.branches\<close>.
  \<^verbatim>\<open>other\<close> is deep-copied first, which changes nothing in a model of values.
\<close>

function gametree_merge ::
  "(string list \<Rightarrow> string list) \<Rightarrow> gametree \<Rightarrow> gametree \<Rightarrow> string option \<Rightarrow> bool
     \<Rightarrow> (string \<Rightarrow> ignore_value set option) \<Rightarrow> error + gametree"
  and merge_branches ::
  "(string list \<Rightarrow> string list) \<Rightarrow> gametree list \<Rightarrow> gametree list \<Rightarrow> string option \<Rightarrow> bool
     \<Rightarrow> (string \<Rightarrow> ignore_value set option) \<Rightarrow> error + (gametree list \<times> gametree list)"
where
  "gametree_merge so self other comment ce ign =
     (case merge_prepare so self other comment ce ign of
        Inl e \<Rightarrow> Inl e
      | Inr (Done t) \<Rightarrow> Inr t
      | Inr (Reconcile trunk sbs obs) \<Rightarrow>
          (case merge_branches so sbs obs comment ce ign of
             Inl e \<Rightarrow> Inl e
           | Inr (sbs', rest) \<Rightarrow>
               (case prefix_comment_branches comment rest of
                  Inl e \<Rightarrow> Inl e
                | Inr rest' \<Rightarrow> Inr (GameTree trunk (sbs' @ rest')))))"
| "merge_branches so [] obs comment ce ign = Inr ([], obs)"
| "merge_branches so (self_branch # sbs) obs comment ce ign =
     (case find_match self_branch obs of
        Inl e \<Rightarrow> Inl e
      | Inr None \<Rightarrow>
          (case merge_branches so sbs obs comment ce ign of
             Inl e \<Rightarrow> Inl e
           | Inr (sbs', rest) \<Rightarrow> Inr (self_branch # sbs', rest))
      | Inr (Some (other_branch, obs')) \<Rightarrow>
          (case gametree_merge so self_branch other_branch comment ce ign of
             Inl e \<Rightarrow> Inl e
           | Inr merged \<Rightarrow>
               (case merge_branches so sbs obs' comment ce ign of
                  Inl e \<Rightarrow> Inl e
                | Inr (sbs', rest) \<Rightarrow> Inr (merged # sbs', rest))))"
  by pat_completeness auto
termination
proof (relation "measure (\<lambda>x. case x of
           Inl (so, self, other, r) \<Rightarrow> 2 * (tsize self + tsize other)
         | Inr (so, sbs, obs, r) \<Rightarrow> 2 * (tsizes sbs + tsizes obs) + 1)")
  show "wf (measure (\<lambda>x. case x of
           Inl (so, self, other, r) \<Rightarrow> 2 * (tsize self + tsize other)
         | Inr (so, sbs, obs, r) \<Rightarrow> 2 * (tsizes sbs + tsizes obs) + 1))"
    by simp
next
  fix so self other comment ce ign x trunk sbs obs
  assume "merge_prepare so self other comment ce ign = Inr x" and "x = Reconcile trunk sbs obs"
  then show "(Inr (so, sbs, obs, comment, ce, ign), Inl (so, self, other, comment, ce, ign))
      \<in> measure (\<lambda>x. case x of
           Inl (so, self, other, r) \<Rightarrow> 2 * (tsize self + tsize other)
         | Inr (so, sbs, obs, r) \<Rightarrow> 2 * (tsizes sbs + tsizes obs) + 1)"
    using merge_prepare_size [of so self other comment ce ign trunk sbs obs] by simp
next
  fix so self_branch sbs obs comment ce ign
  show "(Inr (so, sbs, obs, comment, ce, ign), Inr (so, self_branch # sbs, obs, comment, ce, ign))
      \<in> measure (\<lambda>x. case x of
           Inl (so, self, other, r) \<Rightarrow> 2 * (tsize self + tsize other)
         | Inr (so, sbs, obs, r) \<Rightarrow> 2 * (tsizes sbs + tsizes obs) + 1)"
    using tsize_pos [of self_branch] by (simp add: tsizes_def)
next
  fix so self_branch sbs obs comment ce ign x y other_branch obs'
  assume "find_match self_branch obs = Inr x" and "x = Some y" and "(other_branch, obs') = y"
  then have fm: "find_match self_branch obs = Inr (Some (other_branch, obs'))" by simp
  show "(Inl (so, self_branch, other_branch, comment, ce, ign),
         Inr (so, self_branch # sbs, obs, comment, ce, ign))
      \<in> measure (\<lambda>x. case x of
           Inl (so, self, other, r) \<Rightarrow> 2 * (tsize self + tsize other)
         | Inr (so, sbs, obs, r) \<Rightarrow> 2 * (tsizes sbs + tsizes obs) + 1)"
    using find_match_smaller(2) [OF fm] by (simp add: tsizes_def)
  show "(Inr (so, sbs, obs', comment, ce, ign),
         Inr (so, self_branch # sbs, obs, comment, ce, ign))
      \<in> measure (\<lambda>x. case x of
           Inl (so, self, other, r) \<Rightarrow> 2 * (tsize self + tsize other)
         | Inr (so, sbs, obs, r) \<Rightarrow> 2 * (tsizes sbs + tsizes obs) + 1)"
    using find_match_smaller(1) [OF fm] by (simp add: tsizes_def)
qed

declare gametree_merge.simps [simp del]

text \<open>\<^verbatim>\<open>Collection.merge\<close>.\<close>

definition collection_merge ::
  "(string list \<Rightarrow> string list) \<Rightarrow> collection \<Rightarrow> collection \<Rightarrow> string option \<Rightarrow> bool
     \<Rightarrow> (string \<Rightarrow> ignore_value set option) \<Rightarrow> error + collection" where
  "collection_merge so self other comment ce ign =
     (if length self \<noteq> 1 then Inl (MergeError_games (length self))
      else if length other \<noteq> 1 then Inl (MergeError_games (length other))
      else (case gametree_merge so (hd self) (hd other) comment ce ign of
              Inl e \<Rightarrow> Inl e
            | Inr t \<Rightarrow> Inr (collection_normalize (t # tl self))))"

section \<open>\<^verbatim>\<open>Parser\<close>\<close>

text \<open>
  The parser reads the bytes \<^verbatim>\<open>self.data\<close> from the position \<^verbatim>\<open>self.index\<close> on, which only
  moves forward: the model passes the bytes from that position on, so that
  \<^verbatim>\<open>self.index < self.datalen\<close> says that they are not empty.  The other part of the state
  is \<^verbatim>\<open>self.encoding\<close>.
\<close>

subsection \<open>The patterns\<close>

text \<open>\<^verbatim>\<open>\s\<close> in a pattern on bytes: the six blank characters of ASCII.\<close>

definition is_space :: "char \<Rightarrow> bool" where
  "is_space c = (let n = (of_char c :: nat) in (9 \<le> n \<and> n \<le> 13) \<or> n = 32)"

definition skip_space :: "string \<Rightarrow> string" where
  "skip_space rest = dropWhile is_space rest"

text \<open>
  \<^verbatim>\<open>game_tree_start\<close>, \<^verbatim>\<open>game_tree_end\<close> and \<^verbatim>\<open>property_start\<close>: blanks and then the
  character \<open>c\<close>.  The result is what follows the match.
\<close>

definition match_char :: "char \<Rightarrow> string \<Rightarrow> string option" where
  "match_char c rest =
     (case skip_space rest of
        [] \<Rightarrow> None
      | d # r \<Rightarrow> if d = c then Some r else None)"

text \<open>\<^verbatim>\<open>game_tree_next\<close>: blanks and then one of \<^verbatim>\<open>;\<close>, \<^verbatim>\<open>(\<close> and \<^verbatim>\<open>)\<close>.\<close>

definition game_tree_next :: "string \<Rightarrow> (char \<times> string) option" where
  "game_tree_next rest =
     (case skip_space rest of
        [] \<Rightarrow> None
      | d # r \<Rightarrow> if d = CHR '';'' \<or> d = CHR ''('' \<or> d = CHR '')'' then Some (d, r) else None)"

definition is_letter :: "char \<Rightarrow> bool" where
  "is_letter c = (let n = (of_char c :: nat) in (65 \<le> n \<and> n \<le> 90) \<or> (97 \<le> n \<and> n \<le> 122))"

text \<open>
  \<^verbatim>\<open>node_contents\<close>: blanks, then letters (as many as there are, and at least one) that
  blanks and \<^verbatim>\<open>[\<close> follow.  The match ends after the letters.
\<close>

definition node_contents :: "string \<Rightarrow> (string \<times> string) option" where
  "node_contents rest =
     (let r = skip_space rest; ident = takeWhile is_letter r; after = dropWhile is_letter r
      in if ident \<noteq> [] \<and> match_char (CHR 0x5B) after \<noteq> None then Some (ident, after)
         else None)"

text \<open>\<^verbatim>\<open>line_break\<close>: CR, LF, CR LF or LF CR at the start.\<close>

definition line_break :: "string \<Rightarrow> string option" where
  "line_break rest =
     (case rest of
        [] \<Rightarrow> None
      | c # r \<Rightarrow>
          if c = CHR 0x0D then
            (case r of d # r' \<Rightarrow> if d = CHR 0x0A then Some r' else Some r | [] \<Rightarrow> Some r)
          else if c = CHR 0x0A then
            (case r of d # r' \<Rightarrow> if d = CHR 0x0D then Some r' else Some r | [] \<Rightarrow> Some r)
          else None)"

lemma skip_space_length: "length (skip_space rest) \<le> length rest"
  unfolding skip_space_def by (rule length_dropWhile_le)

lemma match_char_shorter: "match_char c rest = Some r \<Longrightarrow> length r < length rest"
  using skip_space_length [of rest] unfolding match_char_def
  by (auto split: list.splits if_splits)

lemma game_tree_next_shorter: "game_tree_next rest = Some (c, r) \<Longrightarrow> length r < length rest"
  using skip_space_length [of rest] unfolding game_tree_next_def
  by (auto split: list.splits if_splits)

lemma node_contents_shorter:
  "node_contents rest = Some (ident, r) \<Longrightarrow> length r < length rest"
proof -
  assume a: "node_contents rest = Some (ident, r)"
  then have r: "r = dropWhile is_letter (skip_space rest)"
    and i: "takeWhile is_letter (skip_space rest) \<noteq> []"
    unfolding node_contents_def by (auto simp: Let_def split: if_splits)
  have "length (takeWhile is_letter (skip_space rest)) + length r = length (skip_space rest)"
    unfolding r by (metis length_append takeWhile_dropWhile_id)
  with i skip_space_length [of rest] show ?thesis
    by (cases "takeWhile is_letter (skip_space rest)") auto
qed

lemma line_break_shorter: "line_break rest = Some r \<Longrightarrow> length r < length rest"
  unfolding line_break_def by (auto split: list.splits if_splits)

subsection \<open>\<^verbatim>\<open>parse_property_value\<close>\<close>

text \<open>
  The scan of one value, from the position after its \<^verbatim>\<open>[\<close>.  The source looks for the
  next \<^verbatim>\<open>]\<close> and the next backslash; as long as the backslash comes first, it copies the
  bytes before it, drops it, and either drops a line break that follows or copies the one
  byte that follows; then it copies the bytes up to the \<^verbatim>\<open>]\<close>.  Byte by byte, that is:
  a \<^verbatim>\<open>]\<close> ends the value, a backslash is handled as said, any other byte is copied.
  Where no \<^verbatim>\<open>]\<close> is left, the source raises \<^verbatim>\<open>PropertyValueParseError\<close>, and so does the scan
  when it reaches the end of the data.
\<close>

definition prepend :: "char \<Rightarrow> error + (string \<times> string) \<Rightarrow> error + (string \<times> string)" where
  "prepend c res = (case res of Inl e \<Rightarrow> Inl e | Inr (v, rest) \<Rightarrow> Inr (c # v, rest))"

function scan_value :: "string \<Rightarrow> error + (string \<times> string)" where
  "scan_value rest =
     (case rest of
        [] \<Rightarrow> Inl PropertyValueParseError
      | c # r \<Rightarrow>
          if c = CHR 0x5D then Inr ([], r)
          else if c = CHR 0x5C then
            (case line_break r of
               Some r' \<Rightarrow> scan_value r'
             | None \<Rightarrow>
                 (case r of
                    [] \<Rightarrow> Inl PropertyValueParseError
                  | d # r' \<Rightarrow> prepend d (scan_value r')))
          else prepend c (scan_value r))"
  by pat_completeness auto
termination
  by (relation "measure length") (auto dest: line_break_shorter)

declare scan_value.simps [simp del]

lemma scan_value_shorter: "scan_value rest = Inr (v, r) \<Longrightarrow> length r < length rest"
proof (induction rest arbitrary: v r rule: scan_value.induct)
  case (1 rest)
  note e = "1.prems" [unfolded scan_value.simps [of rest]]
  show ?case
  proof (cases rest)
    case Nil
    with e show ?thesis by simp
  next
    case (Cons c rs)
    show ?thesis
    proof (cases "c = CHR 0x5D")
      case True
      with Cons e show ?thesis by simp
    next
      case notend: False
      show ?thesis
      proof (cases "c = CHR 0x5C")
        case True
        show ?thesis
        proof (cases "line_break rs")
          case (Some r')
          with Cons notend True e have "scan_value r' = Inr (v, r)"
            by simp
          from "1.IH"(2) [OF Cons notend True Some this] line_break_shorter [OF Some] Cons
          show ?thesis by simp
        next
          case None
          with Cons notend True e obtain d r' v' where rs: "rs = d # r'"
            and sv: "scan_value r' = Inr (v', r)"
            by (cases rs) (auto simp: prepend_def split: sum.splits)
          from "1.IH"(1) [OF Cons notend True None rs sv] Cons rs show ?thesis by simp
        qed
      next
        case False
        with Cons notend e obtain v' where sv: "scan_value rs = Inr (v', r)"
          by (auto simp: prepend_def split: sum.splits)
        from "1.IH"(3) [OF Cons notend False sv] Cons show ?thesis by simp
      qed
    qed
  qed
qed

text \<open>
  The loop of \<^verbatim>\<open>parse_property_value\<close>: values as long as blanks and \<^verbatim>\<open>[\<close> come next.
  \<^verbatim>\<open>_convert_control_chars\<close> returns its argument.
\<close>

function property_values :: "string list \<Rightarrow> string \<Rightarrow> error + (string list \<times> string)" where
  "property_values pvlist rest =
     (if rest = [] then Inr (pvlist, rest)
      else (case match_char (CHR 0x5B) rest of
              None \<Rightarrow> Inr (pvlist, rest)
            | Some r \<Rightarrow>
                (case scan_value r of
                   Inl e \<Rightarrow> Inl e
                 | Inr (v, r') \<Rightarrow> property_values (pvlist @ [v]) r')))"
  by pat_completeness auto
termination
  by (relation "measure (\<lambda>(pvlist, rest). length rest)")
     (auto dest!: match_char_shorter scan_value_shorter)

declare property_values.simps [simp del]

definition parse_property_value :: "string \<Rightarrow> error + (string list \<times> string)" where
  "parse_property_value rest =
     (case property_values [] rest of
        Inl e \<Rightarrow> Inl e
      | Inr (pvlist, r) \<Rightarrow>
          if length pvlist \<ge> 1 then Inr (pvlist, r) else Inl PropertyValueParseError)"

lemma property_values_shorter:
  "property_values pvlist rest = Inr (vs, r) \<Longrightarrow> length r \<le> length rest"
proof (induction pvlist rest arbitrary: vs r rule: property_values.induct)
  case (1 pvlist rest)
  note e = "1.prems" [unfolded property_values.simps [of pvlist rest]]
  show ?case
  proof (cases "rest = []")
    case True
    with e show ?thesis by simp
  next
    case False
    show ?thesis
    proof (cases "match_char (CHR 0x5B) rest")
      case None
      with False e show ?thesis by simp
    next
      case (Some r0)
      with False e obtain v r' where sv: "scan_value r0 = Inr (v, r')"
        and run: "property_values (pvlist @ [v]) r' = Inr (vs, r)"
        by (auto split: sum.splits)
      from "1.IH" [OF False Some sv refl run] match_char_shorter [OF Some]
        scan_value_shorter [OF sv]
      show ?thesis by simp
    qed
  qed
qed

lemma parse_property_value_shorter:
  "parse_property_value rest = Inr (vs, r) \<Longrightarrow> length r \<le> length rest"
  unfolding parse_property_value_def
  by (auto split: sum.splits if_splits dest: property_values_shorter)
subsection \<open>\<^verbatim>\<open>parse_node\<close>\<close>

text \<open>
  \<^verbatim>\<open>bytes.decode(encoding)\<close> belongs to the Python library, with its many codecs: the parser
  takes it as the parameter \<open>codec\<close>, from the name of an encoding and bytes to a string or
  an exception.
\<close>

type_synonym codec = "string \<Rightarrow> string \<Rightarrow> error + string"

definition TEXT_ENCODING :: string where
  "TEXT_ENCODING = ''UTF-8''"

definition NAME_ENCODING :: string where
  "NAME_ENCODING = ''ASCII''"

text \<open>\<^verbatim>\<open>[item.decode(encoding) for item in pvlist]\<close>.\<close>

fun decode_all :: "codec \<Rightarrow> string \<Rightarrow> string list \<Rightarrow> error + string list" where
  "decode_all codec encoding [] = Inr []"
| "decode_all codec encoding (item # items) =
     (case codec encoding item of
        Inl e \<Rightarrow> Inl e
      | Inr s \<Rightarrow>
          (case decode_all codec encoding items of
             Inl e \<Rightarrow> Inl e
           | Inr ss \<Rightarrow> Inr (s # ss)))"

text \<open>The value of a property: the list for a list-valued identifier, else the one string.\<close>

definition property_value :: "string \<Rightarrow> string list \<Rightarrow> error + pvalue" where
  "property_value property_id pvlist =
     (if property_id \<in> list_properties then Inr (L pvlist)
      else (case pvlist of
              [v] \<Rightarrow> Inr (S v)
            | _ \<Rightarrow> Inl NodePropertyParseError))"

text \<open>
  The value goes into the node.  For an identifier that the node holds already (the source
  warns and goes on), a list is extended and a string gets the new string after an empty
  line.
\<close>

definition add_property :: "node \<Rightarrow> string \<Rightarrow> pvalue \<Rightarrow> error + node" where
  "add_property node property_id v =
     (case map_of node property_id of
        None \<Rightarrow> Inr (node_set node property_id v)
      | Some old \<Rightarrow>
          if property_id \<in> list_properties then
            (case (old, v) of
               (L xs, L ys) \<Rightarrow> Inr (node_set node property_id (L (xs @ ys)))
             | _ \<Rightarrow> Inl AttributeError)
          else
            (case (old, v) of
               (S a, S b) \<Rightarrow> Inr (node_set node property_id (S (a @ [CHR 0x0A, CHR 0x0A] @ b)))
             | _ \<Rightarrow> Inl TypeError))"

text \<open>
  The loop of \<^verbatim>\<open>parse_node\<close>, with the node built so far.  It returns the node where no
  property follows, and raises \<^verbatim>\<open>EndOfDataParseError\<close> where the data end.
\<close>

function parse_node_loop ::
  "codec \<Rightarrow> node \<Rightarrow> string \<Rightarrow> string \<Rightarrow> error + (node \<times> string \<times> string)" where
  "parse_node_loop codec node encoding rest =
     (if rest = [] then Inl EndOfDataParseError
      else
        (case node_contents rest of
           None \<Rightarrow> Inr (node, encoding, rest)
         | Some (property_id, r) \<Rightarrow>
             (case parse_property_value r of
                Inl e \<Rightarrow> Inl e
              | Inr (raw, r') \<Rightarrow>
                  if raw = [] then Inl NodePropertyParseError
                  else
                    (case decode_all codec
                            (if property_id \<in> text_properties then encoding else NAME_ENCODING)
                            raw of
                       Inl e \<Rightarrow> Inl e
                     | Inr pvlist \<Rightarrow>
                         (case property_value property_id pvlist of
                            Inl e \<Rightarrow> Inl e
                          | Inr v \<Rightarrow>
                              (case add_property node property_id v of
                                 Inl e \<Rightarrow> Inl e
                               | Inr node' \<Rightarrow>
                                   if property_id = ''CA'' then
                                     (case pvlist of
                                        [] \<Rightarrow> Inl IndexError
                                      | declared # _ \<Rightarrow>
                                          parse_node_loop codec
                                            (node_set node' ''CA'' (S TEXT_ENCODING)) declared r')
                                   else parse_node_loop codec node' encoding r'))))))"
  by pat_completeness auto
termination
  by (relation "measure (\<lambda>(codec, node, encoding, rest). length rest)")
     (auto dest!: node_contents_shorter parse_property_value_shorter)

declare parse_node_loop.simps [simp del]

definition parse_node :: "codec \<Rightarrow> string \<Rightarrow> string \<Rightarrow> error + (node \<times> string \<times> string)" where
  "parse_node codec encoding rest = parse_node_loop codec [] encoding rest"

lemma parse_node_loop_rest:
  "parse_node_loop codec node encoding rest = Inr (n, enc', r)
     \<Longrightarrow> length r \<le> length rest \<and> r \<noteq> []"
proof (induction codec node encoding rest arbitrary: n enc' r rule: parse_node_loop.induct)
  case (1 codec node encoding rest)
  note e = "1.prems" [unfolded parse_node_loop.simps [of codec node encoding rest]]
  from e have ne: "rest \<noteq> []" by (auto split: if_splits)
  show ?case
  proof (cases "node_contents rest")
    case None
    with e ne show ?thesis by simp
  next
    case (Some a)
    obtain property_id r0 where a: "a = (property_id, r0)" by (cases a)
    from e ne Some a obtain raw r' pvlist v node' where
      pv: "parse_property_value r0 = Inr (raw, r')" and raw: "raw \<noteq> []"
      and dec: "decode_all codec
                  (if property_id \<in> text_properties then encoding else NAME_ENCODING) raw
                = Inr pvlist"
      and val: "property_value property_id pvlist = Inr v"
      and add: "add_property node property_id v = Inr node'"
      by (auto split: sum.splits if_splits)
    have len: "length r' < length rest"
      using node_contents_shorter [OF Some [unfolded a]] parse_property_value_shorter [OF pv]
      by simp
    show ?thesis
    proof (cases "property_id = ''CA''")
      case True
      with e ne Some a pv raw dec val add obtain declared ds where
        pvl: "pvlist = declared # ds"
        and run: "parse_node_loop codec (node_set node' ''CA'' (S TEXT_ENCODING)) declared r'
                    = Inr (n, enc', r)"
        by (cases pvlist) auto
      from "1.IH"(1) [OF ne Some a [symmetric] pv refl raw dec val add True pvl run] len
      show ?thesis by simp
    next
      case False
      with e ne Some a pv raw dec val add
      have run: "parse_node_loop codec node' encoding r' = Inr (n, enc', r)"
        by simp
      from "1.IH"(2) [OF ne Some a [symmetric] pv refl raw dec val add False run] len
      show ?thesis by simp
    qed
  qed
qed

subsection \<open>\<^verbatim>\<open>parse_game_tree\<close> and \<^verbatim>\<open>parse_branches\<close>\<close>

text \<open>
  The loop of \<^verbatim>\<open>parse_game_tree\<close>, with the nodes and the branches of the tree \<^verbatim>\<open>g\<close> built
  so far, and the loop of \<^verbatim>\<open>parse_branches\<close>, with the list \<^verbatim>\<open>v\<close>.  Where the data end,
  the first returns \<^verbatim>\<open>g\<close> and the second raises \<^verbatim>\<open>EndOfDataParseError\<close>.  A tree without
  nodes is false in \<^verbatim>\<open>if g:\<close> and is not appended to \<^verbatim>\<open>v\<close>.
\<close>

function tree_loop ::
  "codec \<Rightarrow> node list \<Rightarrow> gametree list \<Rightarrow> string \<Rightarrow> string
     \<Rightarrow> error + (gametree \<times> string \<times> string)"
  and branches_loop ::
  "codec \<Rightarrow> gametree list \<Rightarrow> string \<Rightarrow> string
     \<Rightarrow> error + (gametree list \<times> string \<times> string)"
where
  "tree_loop codec ns bs encoding rest =
     (if rest = [] then Inr (GameTree ns bs, encoding, rest)
      else
        (case game_tree_next rest of
           None \<Rightarrow> Inl TreeParseError
         | Some (c, r) \<Rightarrow>
             if c = CHR '';'' then
               (if bs \<noteq> [] then Inl TreeParseError
                else (case parse_node codec encoding r of
                        Inl e \<Rightarrow> Inl e
                      | Inr (n, encoding', r') \<Rightarrow> tree_loop codec (ns @ [n]) bs encoding' r'))
             else if c = CHR ''('' then
               (case branches_loop codec [] encoding r of
                  Inl e \<Rightarrow> Inl e
                | Inr (v, encoding', r') \<Rightarrow> tree_loop codec ns v encoding' r')
             else Inr (GameTree ns bs, encoding, r)))"
| "branches_loop codec v encoding rest =
     (if rest = [] then Inl EndOfDataParseError
      else if match_char (CHR '')'') rest \<noteq> None then Inr (v, encoding, rest)
      else
        (case tree_loop codec [] [] encoding rest of
           Inl e \<Rightarrow> Inl e
         | Inr (g, encoding', r') \<Rightarrow>
             branches_loop codec (if nodes g \<noteq> [] then v @ [g] else v) encoding'
               (case match_char (CHR ''('') r' of Some r'' \<Rightarrow> r'' | None \<Rightarrow> r')))"
  by pat_completeness auto

text \<open>
  Both loops return with less of the data than they got, or as much: the termination of
  the two loops rests on that.
\<close>

lemma match_char_or_same:
  "length (case match_char c r of Some r'' \<Rightarrow> r'' | None \<Rightarrow> r) \<le> length r"
  by (cases "match_char c r") (auto dest: match_char_shorter)

lemma loops_shorter:
  "tree_loop_branches_loop_dom (Inl (codec, ns, bs, encoding, rest)) \<Longrightarrow>
     \<forall>g enc' r. tree_loop codec ns bs encoding rest = Inr (g, enc', r)
       \<longrightarrow> length r \<le> length rest \<and> (rest \<noteq> [] \<longrightarrow> length r < length rest)"
  "tree_loop_branches_loop_dom (Inr (codec, v, encoding, rest)) \<Longrightarrow>
     \<forall>v' enc' r. branches_loop codec v encoding rest = Inr (v', enc', r)
       \<longrightarrow> length r \<le> length rest"
proof (induction rule: tree_loop_branches_loop.pinduct)
  case (1 codec ns bs encoding rest)
  note unfold = tree_loop.psimps [OF "1.hyps"]
  show ?case
  proof (intro allI impI)
    fix g enc' r
    assume run: "tree_loop codec ns bs encoding rest = Inr (g, enc', r)"
    show "length r \<le> length rest \<and> (rest \<noteq> [] \<longrightarrow> length r < length rest)"
    proof (cases "rest = []")
      case True
      with run unfold show ?thesis by simp
    next
      case False
      with run unfold obtain c y where next_tok: "game_tree_next rest = Some (c, y)"
        by (cases "game_tree_next rest") auto
      from game_tree_next_shorter [OF next_tok] have y: "length y < length rest" .
      show ?thesis
      proof (cases "c = CHR '';''")
        case True
        with run unfold False next_tok obtain n e1 r1 where bs: "\<not> bs \<noteq> []"
          and pn: "parse_node codec encoding y = Inr (n, e1, r1)"
          and rec: "tree_loop codec (ns @ [n]) bs e1 r1 = Inr (g, enc', r)"
          by (auto split: if_splits sum.splits)
        from pn have "length r1 \<le> length y"
          unfolding parse_node_def by (auto dest: parse_node_loop_rest)
        moreover from "1.IH"(1) [OF False next_tok refl True bs pn refl refl] rec
        have "length r \<le> length r1" by blast
        ultimately show ?thesis using y by simp
      next
        case semi: False
        show ?thesis
        proof (cases "c = CHR ''(''")
          case True
          with run unfold False next_tok semi obtain v e1 r1 where
            br: "branches_loop codec [] encoding y = Inr (v, e1, r1)"
            and rec: "tree_loop codec ns v e1 r1 = Inr (g, enc', r)"
            by (auto split: sum.splits)
          from "1.IH"(2) [OF False next_tok refl semi True] br
          have "length r1 \<le> length y" by blast
          moreover from "1.IH"(3) [OF False next_tok refl semi True br refl refl] rec
          have "length r \<le> length r1" by blast
          ultimately show ?thesis using y by simp
        next
          case False
          with run unfold \<open>rest \<noteq> []\<close> next_tok semi have "r = y" by simp
          with y show ?thesis by simp
        qed
      qed
    qed
  qed
next
  case (2 codec v encoding rest)
  note unfold = branches_loop.psimps [OF "2.hyps"]
  show ?case
  proof (intro allI impI)
    fix v' enc' r
    assume run: "branches_loop codec v encoding rest = Inr (v', enc', r)"
    from run unfold have ne: "rest \<noteq> []" by (auto split: if_splits)
    show "length r \<le> length rest"
    proof (cases "\<not> match_char (CHR '')'') rest \<noteq> None")
      case False
      with run unfold ne show ?thesis by simp
    next
      case True
      with run unfold ne obtain g e1 r1 where
        tr: "tree_loop codec [] [] encoding rest = Inr (g, e1, r1)"
        and rec: "branches_loop codec (if nodes g \<noteq> [] then v @ [g] else v) e1
                    (case match_char (CHR ''('') r1 of Some r'' \<Rightarrow> r'' | None \<Rightarrow> r1)
                  = Inr (v', enc', r)"
        by (auto split: sum.splits)
      from "2.IH"(1) [OF ne True] tr ne have "length r1 < length rest" by blast
      moreover from "2.IH"(2) [OF ne True tr refl refl] rec
      have "length r \<le> length (case match_char (CHR ''('') r1 of Some r'' \<Rightarrow> r'' | None \<Rightarrow> r1)"
        by blast
      ultimately show ?thesis using match_char_or_same [where c = "CHR ''(''" and r = r1] by simp
    qed
  qed
qed

termination tree_loop
proof (relation "measure (\<lambda>x. case x of
           Inl (codec, ns, bs, encoding, rest) \<Rightarrow> 2 * length rest
         | Inr (codec, v, encoding, rest) \<Rightarrow> 2 * length rest + 1)")
  show "wf (measure (\<lambda>x. case x of
           Inl (codec, ns, bs, encoding, rest) \<Rightarrow> 2 * length rest
         | Inr (codec, v, encoding, rest) \<Rightarrow> 2 * length rest + 1))"
    by simp
next
  fix codec :: codec and ns :: "node list" and bs :: "gametree list" and encoding rest :: string
    and x2 x y b xa ya xb yb
  assume "game_tree_next rest = Some x2" and "(x, y) = x2"
    and "parse_node codec encoding y = Inr b" and "(xa, ya) = b" and "(xb, yb) = ya"
  then have "length y < length rest" and "length yb \<le> length y"
    by (auto dest: game_tree_next_shorter parse_node_loop_rest simp: parse_node_def)
  then show "(Inl (codec, ns @ [xa], bs, xb, yb), Inl (codec, ns, bs, encoding, rest))
      \<in> measure (\<lambda>x. case x of
           Inl (codec, ns, bs, encoding, rest) \<Rightarrow> 2 * length rest
         | Inr (codec, v, encoding, rest) \<Rightarrow> 2 * length rest + 1)"
    by simp
next
  fix codec :: codec and ns :: "node list" and bs :: "gametree list" and encoding rest :: string
    and x2 x y
  assume "game_tree_next rest = Some x2" and "(x, y) = x2"
  then have "length y < length rest"
    by (auto dest: game_tree_next_shorter)
  then show "(Inr (codec, [], encoding, y), Inl (codec, ns, bs, encoding, rest))
      \<in> measure (\<lambda>x. case x of
           Inl (codec, ns, bs, encoding, rest) \<Rightarrow> 2 * length rest
         | Inr (codec, v, encoding, rest) \<Rightarrow> 2 * length rest + 1)"
    by simp
next
  fix codec :: codec and ns :: "node list" and bs :: "gametree list" and encoding rest :: string
    and x2 x y b xa ya xb yb
  assume "game_tree_next rest = Some x2" and "(x, y) = x2"
    and "branches_loop codec [] encoding y = Inr b" and "(xa, ya) = b" and "(xb, yb) = ya"
    and "tree_loop_branches_loop_dom (Inr (codec, [], encoding, y))"
  then have "length y < length rest" and "length yb \<le> length y"
    using loops_shorter(2) [of codec "[]" encoding y]
    by (auto dest: game_tree_next_shorter)
  then show "(Inl (codec, ns, xa, xb, yb), Inl (codec, ns, bs, encoding, rest))
      \<in> measure (\<lambda>x. case x of
           Inl (codec, ns, bs, encoding, rest) \<Rightarrow> 2 * length rest
         | Inr (codec, v, encoding, rest) \<Rightarrow> 2 * length rest + 1)"
    by simp
next
  fix codec :: codec and v :: "gametree list" and encoding rest :: string
  show "(Inl (codec, [], [], encoding, rest), Inr (codec, v, encoding, rest))
      \<in> measure (\<lambda>x. case x of
           Inl (codec, ns, bs, encoding, rest) \<Rightarrow> 2 * length rest
         | Inr (codec, v, encoding, rest) \<Rightarrow> 2 * length rest + 1)"
    by simp
next
  fix codec :: codec and v :: "gametree list" and encoding rest :: string
    and b x y xa ya
  assume "rest \<noteq> []" and "tree_loop codec [] [] encoding rest = Inr b" and "(x, y) = b"
    and "(xa, ya) = y"
    and "tree_loop_branches_loop_dom (Inl (codec, [], [], encoding, rest))"
  then have "length ya < length rest"
    using loops_shorter(1) [of codec "[]" "[]" encoding rest] by auto
  then show "(Inr (codec, if nodes x \<noteq> [] then v @ [x] else v, xa,
                case match_char (CHR ''('') ya of Some r'' \<Rightarrow> r'' | None \<Rightarrow> ya),
              Inr (codec, v, encoding, rest))
      \<in> measure (\<lambda>x. case x of
           Inl (codec, ns, bs, encoding, rest) \<Rightarrow> 2 * length rest
         | Inr (codec, v, encoding, rest) \<Rightarrow> 2 * length rest + 1)"
    using match_char_or_same [where c = "CHR ''(''" and r = ya] by simp
qed

declare tree_loop.simps [simp del] branches_loop.simps [simp del]

subsection \<open>\<^verbatim>\<open>parse\<close>\<close>

definition parse_game_tree ::
  "codec \<Rightarrow> string \<Rightarrow> string \<Rightarrow> error + (gametree \<times> string \<times> string)" where
  "parse_game_tree codec encoding rest = tree_loop codec [] [] encoding rest"

definition parse_branches ::
  "codec \<Rightarrow> string \<Rightarrow> string \<Rightarrow> error + (gametree list \<times> string \<times> string)" where
  "parse_branches codec encoding rest = branches_loop codec [] encoding rest"

text \<open>
  What the parser has not read yet is a suffix of what it had to read, at every step.
\<close>

lemma skip_space_suffix: "suffix (skip_space rest) rest"
  unfolding skip_space_def by (rule suffix_dropWhile)

lemma match_char_suffix: "match_char c rest = Some r \<Longrightarrow> suffix (c # r) rest"
  using skip_space_suffix [of rest] unfolding match_char_def
  by (auto split: list.splits if_splits)

lemma game_tree_next_suffix: "game_tree_next rest = Some (c, r) \<Longrightarrow> suffix (c # r) rest"
  using skip_space_suffix [of rest] unfolding game_tree_next_def
  by (auto split: list.splits if_splits)

lemma node_contents_suffix: "node_contents rest = Some (ident, r) \<Longrightarrow> suffix r rest"
proof -
  assume "node_contents rest = Some (ident, r)"
  then have "r = dropWhile is_letter (skip_space rest)"
    unfolding node_contents_def by (auto simp: Let_def split: if_splits)
  then have "suffix r (skip_space rest)" by (simp add: suffix_dropWhile)
  then show ?thesis using skip_space_suffix [of rest] by (rule suffix_order.trans)
qed

lemma line_break_suffix: "line_break rest = Some r \<Longrightarrow> suffix r rest"
  unfolding line_break_def
  by (auto split: list.splits if_splits intro: suffix_ConsI)

lemma scan_value_suffix: "scan_value rest = Inr (v, r) \<Longrightarrow> suffix r rest"
proof (induction rest arbitrary: v r rule: scan_value.induct)
  case (1 rest)
  note e = "1.prems" [unfolded scan_value.simps [of rest]]
  show ?case
  proof (cases rest)
    case Nil
    with e show ?thesis by simp
  next
    case (Cons c rs)
    show ?thesis
    proof (cases "c = CHR 0x5D")
      case True
      with Cons e show ?thesis by (auto intro: suffix_ConsI)
    next
      case notend: False
      show ?thesis
      proof (cases "c = CHR 0x5C")
        case True
        show ?thesis
        proof (cases "line_break rs")
          case (Some r')
          with Cons notend True e have "scan_value r' = Inr (v, r)"
            by simp
          from "1.IH"(2) [OF Cons notend True Some this] line_break_suffix [OF Some] Cons
          show ?thesis by (auto intro: suffix_ConsI dest: suffix_order.trans)
        next
          case None
          with Cons notend True e obtain d r' v' where rs: "rs = d # r'"
            and sv: "scan_value r' = Inr (v', r)"
            by (cases rs) (auto simp: prepend_def split: sum.splits)
          from "1.IH"(1) [OF Cons notend True None rs sv] Cons rs
          show ?thesis by (auto intro: suffix_ConsI)
        qed
      next
        case False
        with Cons notend e obtain v' where sv: "scan_value rs = Inr (v', r)"
          by (auto simp: prepend_def split: sum.splits)
        from "1.IH"(3) [OF Cons notend False sv] Cons show ?thesis
          by (auto intro: suffix_ConsI)
      qed
    qed
  qed
qed

lemma property_values_suffix:
  "property_values pvlist rest = Inr (vs, r) \<Longrightarrow> suffix r rest"
proof (induction pvlist rest arbitrary: vs r rule: property_values.induct)
  case (1 pvlist rest)
  note e = "1.prems" [unfolded property_values.simps [of pvlist rest]]
  show ?case
  proof (cases "rest = []")
    case True
    with e show ?thesis by simp
  next
    case False
    show ?thesis
    proof (cases "match_char (CHR 0x5B) rest")
      case None
      with False e show ?thesis by simp
    next
      case (Some r0)
      with False e obtain v r' where sv: "scan_value r0 = Inr (v, r')"
        and run: "property_values (pvlist @ [v]) r' = Inr (vs, r)"
        by (auto split: sum.splits)
      have "suffix r r'" by (rule "1.IH" [OF False Some sv refl run])
      also have "suffix r' r0" by (rule scan_value_suffix [OF sv])
      also have "suffix r0 rest" using match_char_suffix [OF Some] by (rule suffix_ConsD)
      finally show ?thesis .
    qed
  qed
qed

lemma parse_node_loop_suffix:
  "parse_node_loop codec node encoding rest = Inr (n, enc', r) \<Longrightarrow> suffix r rest"
proof (induction codec node encoding rest arbitrary: n enc' r rule: parse_node_loop.induct)
  case (1 codec node encoding rest)
  note e = "1.prems" [unfolded parse_node_loop.simps [of codec node encoding rest]]
  from e have ne: "rest \<noteq> []" by (auto split: if_splits)
  show ?case
  proof (cases "node_contents rest")
    case None
    with e ne show ?thesis by simp
  next
    case (Some a)
    obtain property_id r0 where a: "a = (property_id, r0)" by (cases a)
    from e ne Some a obtain raw r' pvlist v node' where
      pv: "parse_property_value r0 = Inr (raw, r')" and raw: "raw \<noteq> []"
      and dec: "decode_all codec
                  (if property_id \<in> text_properties then encoding else NAME_ENCODING) raw
                = Inr pvlist"
      and val: "property_value property_id pvlist = Inr v"
      and add: "add_property node property_id v = Inr node'"
      by (auto split: sum.splits if_splits)
    from pv have "suffix r' r0"
      unfolding parse_property_value_def
      by (auto split: sum.splits if_splits dest: property_values_suffix)
    also have "suffix r0 rest" by (rule node_contents_suffix [OF Some [unfolded a]])
    finally have suf: "suffix r' rest" .
    show ?thesis
    proof (cases "property_id = ''CA''")
      case True
      with e ne Some a pv raw dec val add obtain declared ds where
        pvl: "pvlist = declared # ds"
        and run: "parse_node_loop codec (node_set node' ''CA'' (S TEXT_ENCODING)) declared r'
                    = Inr (n, enc', r)"
        by (cases pvlist) auto
      from "1.IH"(1) [OF ne Some a [symmetric] pv refl raw dec val add True pvl run] suf
      show ?thesis by (rule suffix_order.trans)
    next
      case False
      with e ne Some a pv raw dec val add
      have run: "parse_node_loop codec node' encoding r' = Inr (n, enc', r)"
        by simp
      from "1.IH"(2) [OF ne Some a [symmetric] pv refl raw dec val add False run] suf
      show ?thesis by (rule suffix_order.trans)
    qed
  qed
qed

text \<open>
  Where the loop of \<^verbatim>\<open>parse_game_tree\<close> returns a tree, either the data had ended before
  its first round, or the last byte that it read is a \<^verbatim>\<open>)\<close>.  The loop of
  \<^verbatim>\<open>parse_branches\<close> returns only in front of more data.
\<close>

lemma loops_suffix:
  "\<forall>g enc' r. tree_loop codec ns bs encoding rest = Inr (g, enc', r)
     \<longrightarrow> (rest = [] \<and> r = [] \<and> g = GameTree ns bs) \<or> suffix (CHR '')'' # r) rest"
  "\<forall>v' enc' r. branches_loop codec v encoding rest = Inr (v', enc', r)
     \<longrightarrow> suffix r rest \<and> r \<noteq> []"
proof (induction codec ns bs encoding rest and codec v encoding rest
    rule: tree_loop_branches_loop.induct)
  case (1 codec ns bs encoding rest)
  note unfold = tree_loop.simps [of codec ns bs encoding rest]
  show ?case
  proof (intro allI impI)
    fix g enc' r
    assume run: "tree_loop codec ns bs encoding rest = Inr (g, enc', r)"
    show "(rest = [] \<and> r = [] \<and> g = GameTree ns bs) \<or> suffix (CHR '')'' # r) rest"
    proof (cases "rest = []")
      case True
      with run unfold show ?thesis by simp
    next
      case False
      with run unfold obtain c y where next_tok: "game_tree_next rest = Some (c, y)"
        by (cases "game_tree_next rest") auto
      from game_tree_next_suffix [OF next_tok] have cy: "suffix (c # y) rest" .
      then have y: "suffix y rest" by (rule suffix_ConsD)
      show ?thesis
      proof (cases "c = CHR '';''")
        case True
        with run unfold False next_tok obtain n e1 r1 where bs: "\<not> bs \<noteq> []"
          and pn: "parse_node codec encoding y = Inr (n, e1, r1)"
          and rec: "tree_loop codec (ns @ [n]) bs e1 r1 = Inr (g, enc', r)"
          by (auto split: if_splits sum.splits)
        from pn have r1: "suffix r1 y" "r1 \<noteq> []"
          unfolding parse_node_def
          by (auto dest: parse_node_loop_suffix parse_node_loop_rest)
        from "1.IH"(1) [OF False next_tok refl True bs pn refl refl] rec r1(2)
        have "suffix (CHR '')'' # r) r1" by blast
        also note r1(1)
        also note y
        finally show ?thesis by simp
      next
        case semi: False
        show ?thesis
        proof (cases "c = CHR ''(''")
          case True
          with run unfold False next_tok semi obtain v e1 r1 where
            br: "branches_loop codec [] encoding y = Inr (v, e1, r1)"
            and rec: "tree_loop codec ns v e1 r1 = Inr (g, enc', r)"
            by (auto split: sum.splits)
          from "1.IH"(2) [OF False next_tok refl semi True] br
          have r1: "suffix r1 y" "r1 \<noteq> []" by blast+
          from "1.IH"(3) [OF False next_tok refl semi True br refl refl] rec r1(2)
          have "suffix (CHR '')'' # r) r1" by blast
          also note r1(1)
          also note y
          finally show ?thesis by simp
        next
          case False
          with next_tok semi have "c = CHR '')''"
            unfolding game_tree_next_def by (auto split: list.splits if_splits)
          moreover from False run unfold \<open>rest \<noteq> []\<close> next_tok semi have "r = y" by simp
          ultimately show ?thesis using cy by simp
        qed
      qed
    qed
  qed
next
  case (2 codec v encoding rest)
  note unfold = branches_loop.simps [of codec v encoding rest]
  show ?case
  proof (intro allI impI)
    fix v' enc' r
    assume run: "branches_loop codec v encoding rest = Inr (v', enc', r)"
    from run unfold have ne: "rest \<noteq> []" by (auto split: if_splits)
    show "suffix r rest \<and> r \<noteq> []"
    proof (cases "\<not> match_char (CHR '')'') rest \<noteq> None")
      case False
      with run unfold ne show ?thesis by simp
    next
      case True
      with run unfold ne obtain g e1 r1 where
        tr: "tree_loop codec [] [] encoding rest = Inr (g, e1, r1)"
        and rec: "branches_loop codec (if nodes g \<noteq> [] then v @ [g] else v) e1
                    (case match_char (CHR ''('') r1 of Some r'' \<Rightarrow> r'' | None \<Rightarrow> r1)
                  = Inr (v', enc', r)"
        by (auto split: sum.splits)
      from "2.IH"(1) [OF ne True] tr ne have "suffix (CHR '')'' # r1) rest" by blast
      then have r1: "suffix r1 rest" by (rule suffix_ConsD)
      have r2: "suffix (case match_char (CHR ''('') r1 of Some r'' \<Rightarrow> r'' | None \<Rightarrow> r1) r1"
        by (cases "match_char (CHR ''('') r1") (auto dest: match_char_suffix suffix_ConsD)
      from "2.IH"(2) [OF ne True tr refl refl] rec
      have r: "suffix r (case match_char (CHR ''('') r1 of Some r'' \<Rightarrow> r'' | None \<Rightarrow> r1)"
        and "r \<noteq> []"
        by blast+
      from r r2 r1 have "suffix r rest" by (blast intro: suffix_order.trans)
      with \<open>r \<noteq> []\<close> show ?thesis by simp
    qed
  qed
qed

lemma parse_game_tree_shorter:
  assumes "parse_game_tree codec encoding rest = Inr (g, enc', r)"
  shows "length r \<le> length rest"
proof -
  from assms loops_suffix(1) [of codec "[]" "[]" encoding rest]
  have "(rest = [] \<and> r = []) \<or> suffix (CHR '')'' # r) rest"
    unfolding parse_game_tree_def by blast
  then show ?thesis by (auto dest: suffix_length_le)
qed

text \<open>\<^verbatim>\<open>parse_one_game\<close>: \<open>None\<close> is Python's \<^verbatim>\<open>None\<close>.\<close>

definition parse_one_game ::
  "codec \<Rightarrow> string \<Rightarrow> string \<Rightarrow> error + (gametree \<times> string \<times> string) option" where
  "parse_one_game codec encoding rest =
     (if rest \<noteq> [] then
        (case match_char (CHR ''('') rest of
           Some r \<Rightarrow>
             (case parse_game_tree codec encoding r of
                Inl e \<Rightarrow> Inl e
              | Inr res \<Rightarrow> Inr (Some res))
         | None \<Rightarrow> Inr None)
      else Inr None)"

lemma parse_one_game_shorter:
  "parse_one_game codec encoding rest = Inr (Some (g, enc', r)) \<Longrightarrow> length r < length rest"
  unfolding parse_one_game_def
  by (auto split: if_splits option.splits sum.splits
      dest!: match_char_shorter parse_game_tree_shorter)

text \<open>
  The loop of \<^verbatim>\<open>parse\<close>, with the collection built so far.  A game that is \<^verbatim>\<open>None\<close> or has
  no nodes ends the loop.  The parser starts with the encoding \<^verbatim>\<open>latin-1\<close>.
\<close>

function parse_games ::
  "codec \<Rightarrow> collection \<Rightarrow> string \<Rightarrow> string \<Rightarrow> error + collection" where
  "parse_games codec collection encoding rest =
     (if rest = [] then Inr collection
      else
        (case parse_one_game codec encoding rest of
           Inl e \<Rightarrow> Inl e
         | Inr None \<Rightarrow> Inr collection
         | Inr (Some (game, encoding', r)) \<Rightarrow>
             if nodes game \<noteq> [] then parse_games codec (collection @ [game]) encoding' r
             else Inr collection))"
  by pat_completeness auto
termination
  by (relation "measure (\<lambda>(codec, collection, encoding, rest). length rest)")
     (auto dest: parse_one_game_shorter)

declare parse_games.simps [simp del]

definition parse :: "codec \<Rightarrow> string \<Rightarrow> error + collection" where
  "parse codec data = parse_games codec [] ''latin-1'' data"

section \<open>Encodings\<close>

text \<open>
  A Python string is modelled by a \<^typ>\<open>string\<close>, whose characters are the code points below
  256, and \<^verbatim>\<open>bytes\<close> by a \<^typ>\<open>string\<close> too, one character for a byte.  Of the codecs of
  Python the model has the three that the program names itself: \<^verbatim>\<open>latin-1\<close> (the encoding
  with which the parser starts), \<^verbatim>\<open>UTF-8\<close> and \<^verbatim>\<open>ASCII\<close>, in any case of the letters.  With
  any other name, and where UTF-8 bytes stand for a code point from 256 on (a first byte
  from \<^verbatim>\<open>C4\<close> to \<^verbatim>\<open>F4\<close>), the model stops with \<open>NotModelled\<close>.
\<close>

definition is_ascii :: "string \<Rightarrow> bool" where
  "is_ascii s = list_all (\<lambda>c. (of_char c :: nat) < 128) s"

text \<open>
  The strict UTF-8 decoder: one byte below \<^verbatim>\<open>80\<close>, or \<^verbatim>\<open>C2\<close> or \<^verbatim>\<open>C3\<close> and a continuation
  byte (\<^verbatim>\<open>80\<close> to \<^verbatim>\<open>BF\<close>) for the code points from 128 to 255.  A continuation byte in
  first place, \<^verbatim>\<open>C0\<close>, \<^verbatim>\<open>C1\<close> and the bytes from \<^verbatim>\<open>F5\<close> on are not UTF-8.
\<close>

fun utf8_decode :: "string \<Rightarrow> error + string" where
  "utf8_decode [] = Inr []"
| "utf8_decode [c] =
     (let n = (of_char c :: nat) in
      if n < 128 then Inr [c]
      else if 196 \<le> n \<and> n \<le> 244 then Inl NotModelled
      else Inl UnicodeDecodeError)"
| "utf8_decode (c # d # r) =
     (let n = (of_char c :: nat); m = (of_char d :: nat) in
      if n < 128 then
        (case utf8_decode (d # r) of Inl e \<Rightarrow> Inl e | Inr s \<Rightarrow> Inr (c # s))
      else if n = 194 \<or> n = 195 then
        (if 128 \<le> m \<and> m < 192 then
           (case utf8_decode r of
              Inl e \<Rightarrow> Inl e
            | Inr s \<Rightarrow> Inr (char_of ((n - 192) * 64 + (m - 128)) # s))
         else Inl UnicodeDecodeError)
      else if 196 \<le> n \<and> n \<le> 244 then Inl NotModelled
      else Inl UnicodeDecodeError)"

text \<open>\<^verbatim>\<open>bytes.decode(encoding)\<close>.\<close>

definition py_decode :: codec where
  "py_decode encoding data =
     (let name = py_lower encoding in
      if name = ''latin-1'' then Inr data
      else if name = ''ascii'' then (if is_ascii data then Inr data else Inl UnicodeDecodeError)
      else if name = ''utf-8'' then utf8_decode data
      else Inl NotModelled)"

definition utf8_encode_char :: "char \<Rightarrow> string" where
  "utf8_encode_char c =
     (let n = (of_char c :: nat) in
      if n < 128 then [c] else [char_of (192 + n div 64), char_of (128 + n mod 64)])"

text \<open>\<^verbatim>\<open>bytes(text, encoding)\<close>.\<close>

definition py_encode :: "string \<Rightarrow> string \<Rightarrow> error + string" where
  "py_encode encoding text =
     (let name = py_lower encoding in
      if name = ''latin-1'' then Inr text
      else if name = ''ascii'' then (if is_ascii text then Inr text else Inl UnicodeEncodeError)
      else if name = ''utf-8'' then Inr (concat (map utf8_encode_char text))
      else Inl NotModelled)"

section \<open>The bytes of a collection\<close>

text \<open>
  \<^verbatim>\<open>Node.escape_text\<close> splits the text at every backslash and every \<^verbatim>\<open>]\<close>, keeping them as the
  parts with an odd index, and joins the parts again with a backslash before those: each
  of the two characters gets a backslash before it.
\<close>

definition escape_text :: "string \<Rightarrow> string" where
  "escape_text text =
     concat (map (\<lambda>c. if c = CHR 0x5C \<or> c = CHR 0x5D then [CHR 0x5C, c] else [c]) text)"

text \<open>\<^verbatim>\<open>sep.join(parts)\<close>.\<close>

fun join :: "string \<Rightarrow> string list \<Rightarrow> string" where
  "join sep [] = []"
| "join sep [x] = x"
| "join sep (x # y # ys) = x @ sep @ join sep (y # ys)"

text \<open>A list comprehension whose element may raise: the first exception ends it.\<close>

fun collect :: "('a \<Rightarrow> error + 'b) \<Rightarrow> 'a list \<Rightarrow> error + 'b list" where
  "collect f [] = Inr []"
| "collect f (x # xs) =
     (case f x of
        Inl e \<Rightarrow> Inl e
      | Inr y \<Rightarrow> (case collect f xs of Inl e \<Rightarrow> Inl e | Inr ys \<Rightarrow> Inr (y # ys)))"

text \<open>
  One round of the loop of \<^verbatim>\<open>Node.__bytes__\<close>: the identifier, \<^verbatim>\<open>[\<close>, the value or the values
  joined by \<^verbatim>\<open>][\<close>, and \<^verbatim>\<open>]\<close>.  A list-valued identifier iterates over its value (over the
  characters of a string); for the other identifiers \<^verbatim>\<open>str(value)\<close> is the value where it is
  a string, and the Python notation of a list, which the model does not have, where it is
  a list.
\<close>

definition property_bytes :: "string \<times> pvalue \<Rightarrow> error + string" where
  "property_bytes item =
     (case item of (name, value) \<Rightarrow>
        let encoding = (if name \<in> text_properties then TEXT_ENCODING else NAME_ENCODING) in
        (case py_encode NAME_ENCODING name of
           Inl e \<Rightarrow> Inl e
         | Inr name_bytes \<Rightarrow>
             (case (if name \<in> list_properties then
                      (case collect (\<lambda>item. py_encode encoding (escape_text item))
                              (elements value) of
                         Inl e \<Rightarrow> Inl e
                       | Inr parts \<Rightarrow> Inr (join ''][''  parts))
                    else
                      (case value of
                         S s \<Rightarrow> py_encode encoding (escape_text s)
                       | L xs \<Rightarrow> Inl NotModelled)) of
                Inl e \<Rightarrow> Inl e
              | Inr body \<Rightarrow> Inr (name_bytes @ ''['' @ body @ '']''))))"

text \<open>\<^verbatim>\<open>Node.__bytes__\<close>.\<close>

definition node_bytes :: "node \<Rightarrow> error + string" where
  "node_bytes node =
     (case collect property_bytes node of
        Inl e \<Rightarrow> Inl e
      | Inr parts \<Rightarrow> Inr ('';'' @ concat parts))"

text \<open>
  \<^verbatim>\<open>GameTree.__bytes__\<close>: \<^verbatim>\<open>(\<close>, the nodes, the branches and \<^verbatim>\<open>)\<close>, joined by line feeds; and
  the bytes of each tree of a list.
\<close>

fun gametree_bytes :: "gametree \<Rightarrow> error + string"
  and gametrees_bytes :: "gametree list \<Rightarrow> error + string list" where
  "gametree_bytes (GameTree ns bs) =
     (case collect node_bytes ns of
        Inl e \<Rightarrow> Inl e
      | Inr node_parts \<Rightarrow>
          (case gametrees_bytes bs of
             Inl e \<Rightarrow> Inl e
           | Inr branch_parts \<Rightarrow>
               Inr (join [CHR 0x0A] ([''(''] @ node_parts @ branch_parts @ ['')'']))))"
| "gametrees_bytes [] = Inr []"
| "gametrees_bytes (g # gs) =
     (case gametree_bytes g of
        Inl e \<Rightarrow> Inl e
      | Inr part \<Rightarrow>
          (case gametrees_bytes gs of Inl e \<Rightarrow> Inl e | Inr parts \<Rightarrow> Inr (part # parts)))"

text \<open>\<^verbatim>\<open>Collection.__bytes__\<close>: the trees, with an empty line between them.\<close>

definition collection_bytes :: "collection \<Rightarrow> error + string" where
  "collection_bytes collection =
     (case gametrees_bytes collection of
        Inl e \<Rightarrow> Inl e
      | Inr parts \<Rightarrow> Inr (join [CHR 0x0A, CHR 0x0A] parts))"

section \<open>Normal form after \<^verbatim>\<open>Collection.merge\<close>\<close>

text \<open>
  A tree is in normal form when it has no branch or at least two, and each of its branches
  is in normal form.
\<close>

fun normal :: "gametree \<Rightarrow> bool" where
  "normal (GameTree ns bs) = (length bs \<noteq> 1 \<and> list_all normal bs)"

lemma gametree_normalize_normal: "normal (gametree_normalize t)"
proof (induction t rule: gametree_normalize.induct)
  case (1 ns bs)
  show ?case
  proof (cases bs)
    case Nil
    then show ?thesis by simp
  next
    case (Cons b bs')
    note outer = Cons
    show ?thesis
    proof (cases bs')
      case Nil
      with outer "1.IH"(1) show ?thesis by simp
    next
      case (Cons c cs)
      with outer "1.IH"(2) have "\<forall>x \<in> set bs. normal (gametree_normalize x)"
        by simp
      with outer Cons show ?thesis
        by (simp add: list_all_iff)
    qed
  qed
qed

text \<open>
  C10.  Whenever \<^verbatim>\<open>Collection.merge\<close> returns, every tree of the target collection is in
  normal form: it, and every branch below it, has no branch or at least two branches.
\<close>

theorem collection_merge_normal:
  assumes "collection_merge so self other comment ce ign = Inr result"
  shows "list_all normal result"
proof -
  from assms obtain t where "result = collection_normalize (t # tl self)"
    unfolding collection_merge_def by (auto split: if_splits sum.splits)
  then show ?thesis
    by (simp add: collection_normalize_def list_all_iff gametree_normalize_normal)
qed

text \<open>
  An instance: a game of one move merged with its continuation.  \<^verbatim>\<open>GameTree.merge\<close> hangs
  the continuation below the target as its only branch, and the normalization takes it
  into the trunk.
\<close>

theorem collection_merge_normal_witness:
  "collection_merge id [GameTree [[(''B'', S ''aa'')]] []]
       [GameTree [[(''B'', S ''aa'')], [(''W'', S ''bb'')]] []] None True Map.empty
     = Inr [GameTree [[(''B'', S ''aa'')], [(''C'', S []), (''W'', S ''bb'')]] []]
   \<and> list_all normal [GameTree [[(''B'', S ''aa'')], [(''C'', S []), (''W'', S ''bb'')]] []]"
proof -
  have run: "collection_merge id [GameTree [[(''B'', S ''aa'')]] []]
       [GameTree [[(''B'', S ''aa'')], [(''W'', S ''bb'')]] []] None True Map.empty
     = Inr [GameTree [[(''B'', S ''aa'')], [(''C'', S []), (''W'', S ''bb'')]] []]"
    by code_simp
  from collection_merge_normal [OF run] run show ?thesis by blast
qed

section \<open>Trunks of unequal length\<close>

lemma walk_first_equivalent:
  "walk so c ce ign (m # ms) (n # ns) = Inr r \<Longrightarrow> \<exists>b. equivalent m n = Inr b"
  by (cases "equivalent m n") auto

lemma equivalent_placeholder_node:
  "equivalent [(''C'', S [])] n = Inr b \<Longrightarrow> b"
  by (auto simp: equivalent_def node_type_def split: sum.splits if_splits)

lemma gametree_init_nodes:
  "gametree_init (n # ns) bs c = Inr t \<Longrightarrow> \<exists>n'. t = GameTree (n' # ns) bs"
  by (auto simp: gametree_init_def split: if_splits sum.splits)

text \<open>
  C8 (the source's longer tail is discarded) fails: a game of one move merged with its
  continuation gains the continuation as a branch.  The move \<^verbatim>\<open>W[bb]\<close> of the source is
  merged into the placeholder node \<^verbatim>\<open>Node(C='')\<close>.
\<close>

theorem longer_source_tail_discarded_counterexample:
  "gametree_merge id (GameTree [[(''B'', S ''aa'')]] [])
       (GameTree [[(''B'', S ''aa'')], [(''W'', S ''bb'')]] []) None True Map.empty
     = Inr (GameTree [[(''B'', S ''aa'')]] [GameTree [[(''C'', S []), (''W'', S ''bb'')]] []])
   \<and> GameTree [[(''B'', S ''aa'')]] [GameTree [[(''C'', S []), (''W'', S ''bb'')]] []]
     \<noteq> GameTree [[(''B'', S ''aa'')]] []"
  by code_simp

text \<open>
  C8 as amended.  Let the first loop of \<^verbatim>\<open>GameTree.merge\<close> end without a divergence, with
  \<open>pre\<close> the merged common prefix.

  \<^item> If the target has nodes left (\<open>self_rest\<close>) and the source has no branches, the target
    keeps these nodes in its trunk and keeps its branches: nothing is converted.
  \<^item> If the source has nodes left (\<open>other_rest\<close>) and the target, with a trunk that is not
    empty, has no branches, the tail of the source is not discarded: with its branches (and the
    prefix) it is merged into a placeholder branch, which becomes the only branch of the
    target.
\<close>

theorem unequal_trunks_without_branches:
  "(walk so comment ce ign (nodes self) (nodes other) = Inr (pre, self_rest, [], False)
      \<and> self_rest \<noteq> [] \<and> branches other = []
    \<longrightarrow> gametree_merge so self other comment ce ign
          = Inr (GameTree (pre @ self_rest) (branches self)))
   \<and> (walk so comment ce ign (nodes self) (nodes other) = Inr (pre, [], other_rest, False)
      \<and> other_rest \<noteq> [] \<and> nodes self \<noteq> [] \<and> branches self = []
      \<and> gametree_init other_rest (branches other) comment = Inr other_branch
      \<and> gametree_merge so placeholder other_branch comment ce ign = Inr merged
    \<longrightarrow> gametree_merge so self other comment ce ign = Inr (GameTree pre [merged]))"
proof (intro conjI impI)
  assume a: "walk so comment ce ign (nodes self) (nodes other) = Inr (pre, self_rest, [], False)
      \<and> self_rest \<noteq> [] \<and> branches other = []"
  then have w: "walk so comment ce ign (nodes self) (nodes other) = Inr (pre, self_rest, [], False)"
    and sr: "self_rest \<noteq> []" and ob: "branches other = []"
    by simp_all
  from walk_lengths [OF w] sr
  have len: "length (nodes self) > length (nodes other)"
    by auto
  have trunk: "nodes other = [] \<Longrightarrow> pre = [] \<and> self_rest = nodes self"
    using w by (cases "nodes self") auto
  have "merge_prepare so self other comment ce ign
          = Inr (Done (GameTree (pre @ self_rest) (branches self)))"
    using w sr ob len trunk unfolding merge_prepare_def
    by (cases self) auto
  then show "gametree_merge so self other comment ce ign
          = Inr (GameTree (pre @ self_rest) (branches self))"
    by (simp add: gametree_merge.simps)
next
  assume a: "walk so comment ce ign (nodes self) (nodes other) = Inr (pre, [], other_rest, False)
      \<and> other_rest \<noteq> [] \<and> nodes self \<noteq> [] \<and> branches self = []
      \<and> gametree_init other_rest (branches other) comment = Inr other_branch
      \<and> gametree_merge so placeholder other_branch comment ce ign = Inr merged"
  then have w: "walk so comment ce ign (nodes self) (nodes other) = Inr (pre, [], other_rest, False)"
    and orest: "other_rest \<noteq> []" and sn: "nodes self \<noteq> []" and sb: "branches self = []"
    and init: "gametree_init other_rest (branches other) comment = Inr other_branch"
    and m: "gametree_merge so placeholder other_branch comment ce ign = Inr merged"
    by simp_all
  from walk_lengths [OF w] orest
  have len: "length (nodes other) > length (nodes self)" by auto
  then have on: "nodes other \<noteq> []" by auto
  have prep: "merge_prepare so self other comment ce ign
          = Inr (Reconcile pre [placeholder] [other_branch])"
    using w sn sb on len init unfolding merge_prepare_def by auto
  from orest init obtain n ns where obn: "other_branch = GameTree (n # ns) (branches other)"
    by (cases other_rest) (auto dest: gametree_init_nodes)
  from m have "\<exists>r. walk so comment ce ign [[(''C'', S [])]] (n # ns) = Inr r"
    unfolding obn placeholder_def gametree_merge.simps [of so "GameTree [[(''C'', S [])]] []"]
      merge_prepare_def
    by (auto split: sum.splits)
  then obtain b where "equivalent [(''C'', S [])] n = Inr b"
    using walk_first_equivalent by blast
  then have eq: "equivalent [(''C'', S [])] n = Inr True"
    using equivalent_placeholder_node by (cases b) auto
  have fm: "find_match placeholder [other_branch] = Inr (Some (other_branch, []))"
    using eq unfolding obn placeholder_def by simp
  have "merge_branches so [placeholder] [other_branch] comment ce ign = Inr ([merged], [])"
    using fm m by simp
  with prep show "gametree_merge so self other comment ce ign = Inr (GameTree pre [merged])"
    by (simp add: gametree_merge.simps [of so self])
qed

theorem unequal_trunks_without_branches_witness:
  "(walk id None True Map.empty [[(''B'', S ''aa'')], [(''W'', S ''bb'')]] [[(''B'', S ''aa'')]]
       = Inr ([[(''B'', S ''aa'')]], [[(''W'', S ''bb'')]], [], False)
    \<and> gametree_merge id (GameTree [[(''B'', S ''aa'')], [(''W'', S ''bb'')]] [])
         (GameTree [[(''B'', S ''aa'')]] []) None True Map.empty
       = Inr (GameTree [[(''B'', S ''aa'')], [(''W'', S ''bb'')]] []))
   \<and> (walk id None True Map.empty [[(''B'', S ''aa'')]] [[(''B'', S ''aa'')], [(''W'', S ''bb'')]]
       = Inr ([[(''B'', S ''aa'')]], [], [[(''W'', S ''bb'')]], False)
    \<and> gametree_init [[(''W'', S ''bb'')]] [] None = Inr (GameTree [[(''W'', S ''bb'')]] [])
    \<and> gametree_merge id placeholder (GameTree [[(''W'', S ''bb'')]] []) None True Map.empty
       = Inr (GameTree [[(''C'', S []), (''W'', S ''bb'')]] [])
    \<and> gametree_merge id (GameTree [[(''B'', S ''aa'')]] [])
         (GameTree [[(''B'', S ''aa'')], [(''W'', S ''bb'')]] []) None True Map.empty
       = Inr (GameTree [[(''B'', S ''aa'')]] [GameTree [[(''C'', S []), (''W'', S ''bb'')]] []]))"
proof -
  have w1: "walk id None True Map.empty [[(''B'', S ''aa'')], [(''W'', S ''bb'')]]
       [[(''B'', S ''aa'')]] = Inr ([[(''B'', S ''aa'')]], [[(''W'', S ''bb'')]], [], False)"
    by code_simp
  have w2: "walk id None True Map.empty [[(''B'', S ''aa'')]]
       [[(''B'', S ''aa'')], [(''W'', S ''bb'')]]
       = Inr ([[(''B'', S ''aa'')]], [], [[(''W'', S ''bb'')]], False)"
    by code_simp
  have i2: "gametree_init [[(''W'', S ''bb'')]] [] None = Inr (GameTree [[(''W'', S ''bb'')]] [])"
    by code_simp
  have m2: "gametree_merge id placeholder (GameTree [[(''W'', S ''bb'')]] []) None True Map.empty
       = Inr (GameTree [[(''C'', S []), (''W'', S ''bb'')]] [])"
    by code_simp
  have a: "gametree_merge id (GameTree [[(''B'', S ''aa'')], [(''W'', S ''bb'')]] [])
         (GameTree [[(''B'', S ''aa'')]] []) None True Map.empty
       = Inr (GameTree [[(''B'', S ''aa'')], [(''W'', S ''bb'')]] [])"
    using unequal_trunks_without_branches [of id None True Map.empty "GameTree [[(''B'', S ''aa'')], [(''W'', S ''bb'')]] []"
        "GameTree [[(''B'', S ''aa'')]] []" "[[(''B'', S ''aa'')]]" "[[(''W'', S ''bb'')]]"]
      w1 by simp
  have b: "gametree_merge id (GameTree [[(''B'', S ''aa'')]] [])
         (GameTree [[(''B'', S ''aa'')], [(''W'', S ''bb'')]] []) None True Map.empty
       = Inr (GameTree [[(''B'', S ''aa'')]] [GameTree [[(''C'', S []), (''W'', S ''bb'')]] []])"
    using unequal_trunks_without_branches [of id None True Map.empty "GameTree [[(''B'', S ''aa'')]] []"
        "GameTree [[(''B'', S ''aa'')], [(''W'', S ''bb'')]] []" "[[(''B'', S ''aa'')]]" _
        "[[(''W'', S ''bb'')]]" "GameTree [[(''W'', S ''bb'')]] []"
        "GameTree [[(''C'', S []), (''W'', S ''bb'')]] []"]
      w2 i2 m2 by simp
  from w1 w2 i2 m2 a b show ?thesis by simp
qed

section \<open>Merging the properties of two nodes\<close>

lemma map_of_node_set_other: "k \<noteq> p \<Longrightarrow> map_of (node_set n k v) p = map_of n p"
  by (induction n) auto

lemma map_of_node_set_same: "map_of (node_set n k v) k = Some v"
  by (induction n) auto

lemma map_of_node_del_other: "k \<noteq> p \<Longrightarrow> map_of (node_del n k) p = map_of n p"
  by (induction n) (auto simp: node_del_def)

lemma node_set_idem: "map_of n k = Some v \<Longrightarrow> node_set n k v = n"
  by (induction n) (auto split: if_splits)

lemma py_strip_Nil [simp]: "py_strip [] = []"
  by (simp add: py_strip_def)

lemma merge_items_append:
  "merge_items so c ce ign self (xs @ ys) =
     (case merge_items so c ce ign self xs of
        Inl e \<Rightarrow> Inl e
      | Inr self' \<Rightarrow> merge_items so c ce ign self' ys)"
  by (induction xs arbitrary: self) (auto split: sum.splits)

text \<open>A round of the loop for one property leaves the values of all other properties.\<close>

lemma merge_differing_other_key:
  assumes "merge_differing_scalar_property_values self k ov iv = Inr self'" and "k \<noteq> p"
  shows "map_of self' p = map_of self p"
  using assms unfolding merge_differing_scalar_property_values_def
  by (auto simp: Let_def map_of_node_set_other map_of_node_del_other
        split: option.splits pvalue.splits if_splits)

lemma merge_property_other_key:
  assumes "merge_property so c ce ign self (k, v) = Inr self'" and "k \<noteq> p"
  shows "map_of self' p = map_of self p"
proof (cases "k = ''C''")
  case True
  with assms show ?thesis
    unfolding merge_property_def
    by (auto simp: Let_def map_of_node_set_other
          split: if_splits sum.splits bool.splits pvalue.splits option.splits)
next
  case False
  with assms show ?thesis
    unfolding merge_property_def
    by (auto simp: Let_def map_of_node_set_other
          dest: merge_differing_other_key
          split: if_splits sum.splits bool.splits pvalue.splits option.splits)
qed

lemma merge_items_other_keys:
  assumes "merge_items so c ce ign self items = Inr self'" and "p \<notin> fst ` set items"
  shows "map_of self' p = map_of self p"
  using assms
proof (induction items arbitrary: self)
  case Nil
  then show ?case by simp
next
  case (Cons item items)
  obtain k v where item: "item = (k, v)" by (cases item)
  from Cons.prems(1) obtain mid where
    step: "merge_property so c ce ign self (k, v) = Inr mid"
    and rest: "merge_items so c ce ign mid items = Inr self'"
    unfolding item by (auto split: sum.splits)
  from Cons.prems(2) have "k \<noteq> p" and "p \<notin> fst ` set items"
    unfolding item by auto
  with Cons.IH [OF rest] merge_property_other_key [OF step] show ?case by simp
qed
lemma list_property_not_scalar:
  "p \<in> list_properties \<Longrightarrow> p \<notin> scalar_properties \<and> p \<noteq> ''C''"
  unfolding list_properties_def scalar_properties_def by auto

text \<open>The Python set \<^verbatim>\<open>other_values - self_values\<close> for two lists, each member once.\<close>

definition extras :: "string list \<Rightarrow> string list \<Rightarrow> string list" where
  "extras xs ys = remdups (filter (\<lambda>y. y \<notin> set xs) ys)"

lemma merge_property_list:
  assumes "p \<in> list_properties" and "map_of self p = Some (L xs)"
  shows "\<exists>self'. merge_property so c ce ign self (p, L ys) = Inr self'
           \<and> map_of self' p = Some (L (xs @ (if extras xs ys = [] then [] else so (extras xs ys))))"
  using assms list_property_not_scalar [OF assms(1)]
  unfolding merge_property_def extras_def
  by (auto simp: Let_def map_of_node_set_same)

lemma split_at_key:
  assumes "map_of other p = Some v" and "distinct (map fst other)"
  shows "\<exists>before after. other = before @ (p, v) # after
           \<and> p \<notin> fst ` set before \<and> p \<notin> fst ` set after"
proof -
  from assms(1) have "(p, v) \<in> set other" by (rule map_of_SomeD)
  then obtain before after where sp: "other = before @ (p, v) # after"
    by (auto dest: split_list)
  with assms(2) show ?thesis by auto
qed

text \<open>
  A set order is any way to list the members of a set: each member once.
\<close>

definition is_set_order :: "(string list \<Rightarrow> string list) \<Rightarrow> bool" where
  "is_set_order so = (\<forall>e. distinct e \<longrightarrow> distinct (so e) \<and> set (so e) = set e)"

text \<open>
  C6 (the new entries are appended in the order of the source's list) fails: the entries
  are appended in the order in which Python iterates the set \<^verbatim>\<open>other_values - self_values\<close>.
  Where that order is the reverse of the source's, the labels \<^verbatim>\<open>bb:B\<close> and \<^verbatim>\<open>cc:C\<close> of the
  source arrive as \<^verbatim>\<open>cc:C\<close>, \<^verbatim>\<open>bb:B\<close>.
\<close>

theorem list_union_source_order_counterexample:
  "node_merge rev [(''LB'', L [''aa:A''])] [(''LB'', L [''aa:A'', ''bb:B'', ''cc:C''])]
       None True Map.empty
     = Inr [(''LB'', L [''aa:A'', ''cc:C'', ''bb:B''])]
   \<and> [''aa:A'', ''cc:C'', ''bb:B''] \<noteq> [''aa:A''] @ [''bb:B'', ''cc:C'']"
  by code_simp

text \<open>
  C6 as amended.  For a list-valued identifier that both nodes hold, the merged value is the
  target's list unchanged (its order and its duplicates kept), followed by the entries of
  the source that the target does not hold, each once, in the order in which the set of
  these entries is iterated, whatever that order is.
\<close>

theorem list_property_union:
  assumes "property_id \<in> list_properties"
    and "map_of self property_id = Some (L xs)"
    and "map_of other property_id = Some (L ys)"
    and "distinct (map fst other)"
    and "is_set_order so"
    and "node_merge so self other comment ce ign = Inr merged"
  shows "\<exists>zs. map_of merged property_id = Some (L (xs @ zs))
           \<and> distinct zs \<and> set zs = set ys - set xs"
proof -
  define c where "c = (case comment of None \<Rightarrow> [] | Some c \<Rightarrow> c @ [CHR 0x0A])"
  from split_at_key [OF assms(3,4)] obtain before after where
    other: "other = before @ (property_id, L ys) # after"
    and nb: "property_id \<notin> fst ` set before" and na: "property_id \<notin> fst ` set after"
    by blast
  from assms(6) have run: "merge_items so c ce ign self (before @ (property_id, L ys) # after)
      = Inr merged"
    unfolding node_merge_def c_def other .
  then obtain s1 where s1: "merge_items so c ce ign self before = Inr s1"
    and run1: "merge_items so c ce ign s1 ((property_id, L ys) # after) = Inr merged"
    unfolding merge_items_append by (auto split: sum.splits)
  from merge_items_other_keys [OF s1 nb] assms(2)
  have v1: "map_of s1 property_id = Some (L xs)" by simp
  define zs where "zs = (if extras xs ys = [] then [] else so (extras xs ys))"
  from merge_property_list [OF assms(1) v1, of so c ce ign ys] obtain s2 where
    s2: "merge_property so c ce ign s1 (property_id, L ys) = Inr s2"
    and v2: "map_of s2 property_id = Some (L (xs @ zs))"
    unfolding zs_def by blast
  from run1 s2 have "merge_items so c ce ign s2 after = Inr merged" by simp
  from merge_items_other_keys [OF this na] v2
  have "map_of merged property_id = Some (L (xs @ zs))" by simp
  moreover have "distinct (extras xs ys)" and "set (extras xs ys) = set ys - set xs"
    unfolding extras_def by auto
  with assms(5) have "distinct zs \<and> set zs = set ys - set xs"
    unfolding zs_def is_set_order_def by auto
  ultimately show ?thesis by blast
qed

theorem list_property_union_witness:
  "is_set_order rev
   \<and> node_merge rev [(''LB'', L [''aa:A''])] [(''LB'', L [''aa:A'', ''bb:B''])] None True Map.empty
       = Inr [(''LB'', L [''aa:A'', ''bb:B''])]
   \<and> (\<exists>zs. map_of [(''LB'', L [''aa:A'', ''bb:B''])] ''LB'' = Some (L ([''aa:A''] @ zs))
          \<and> distinct zs \<and> set zs = set [''aa:A'', ''bb:B''] - set [''aa:A''])"
proof -
  have so: "is_set_order rev" by (simp add: is_set_order_def)
  have lb: "''LB'' \<in> list_properties" by (simp add: list_properties_def)
  have run: "node_merge rev [(''LB'', L [''aa:A''])] [(''LB'', L [''aa:A'', ''bb:B''])]
       None True Map.empty = Inr [(''LB'', L [''aa:A'', ''bb:B''])]"
    by code_simp
  from list_property_union [OF lb _ _ _ so run, of "[''aa:A'']" "[''aa:A'', ''bb:B'']"]
  have "\<exists>zs. map_of [(''LB'', L [''aa:A'', ''bb:B''])] ''LB'' = Some (L ([''aa:A''] @ zs))
          \<and> distinct zs \<and> set zs = set [''aa:A'', ''bb:B''] - set [''aa:A'']"
    by simp
  with so run show ?thesis by blast
qed

text \<open>
  The round of the loop of \<^verbatim>\<open>Node.merge\<close> for a scalar property, other than the comment,
  that the target holds with another value, when neither value is empty or ignored.
\<close>

lemma merge_property_scalar_differing:
  assumes "p \<in> scalar_properties" and "p \<noteq> ''C''"
    and "map_of self p = Some (S sv)" and "sv \<noteq> ov" and "sv \<noteq> []" and "ov \<noteq> []"
    and "Any \<notin> get_or_empty default_ignore_property_values p \<union> get_or_empty ign p"
    and "Val sv \<notin> get_or_empty default_ignore_property_values p \<union> get_or_empty ign p"
    and "Val ov \<notin> get_or_empty default_ignore_property_values p \<union> get_or_empty ign p"
  shows "merge_property so c ce ign self (p, S ov) =
     (if p \<in> real_properties then
        (case py_float sv of
           None \<Rightarrow> Inl ValueError
         | Some a \<Rightarrow>
             (case py_float ov of
                None \<Rightarrow> Inl ValueError
              | Some b \<Rightarrow>
                  if isclose a b \<or> (p \<in> text_properties \<and> py_lower sv = py_lower ov)
                  then Inr self else Inl (MergeError_differ p sv ov)))
      else if p \<in> text_properties \<and> py_lower sv = py_lower ov then Inr self
      else Inl (MergeError_differ p sv ov))"
  using assms
  unfolding merge_property_def merge_differing_scalar_property_values_def
  by (auto simp: Let_def split: option.splits)

lemma merge_property_wildcard:
  assumes "p \<in> scalar_properties" and "Any \<in> get_or_empty ign p"
  shows "merge_property so c ce ign self (p, v) = Inr self"
  using assms unfolding merge_property_def by (simp add: Let_def)

text \<open>
  C2.  The rules of \<^verbatim>\<open>Node.merge\<close> for a property of the source come in this order: an
  ignored property is skipped; the comment \<^verbatim>\<open>C\<close> is joined; for another scalar identifier
  that the target holds with another value, an ignore-listed value of the target gives way,
  an empty value gives way to the other one, numerically close values (numeric identifier)
  and values equal up to case (text identifier) keep the value of the target, and
  otherwise the merge conflict is raised.  The claim is about this last case.

  Let \<open>property_id\<close> be a scalar identifier other than the comment, which the target holds
  with the value \<open>sv\<close> when its round of the merge comes (after the properties \<open>before\<close>
  of the source are merged), and the source with the value \<open>ov\<close>.  If the values differ,
  neither is empty, neither is ignore-listed and the wildcard is not in the rules, the
  values are not numerically close (for a numeric identifier) and not equal up to case
  (for a text identifier), then \<^verbatim>\<open>Node.merge\<close> raises the \<^verbatim>\<open>MergeError\<close> that names the
  identifier and both values.  Under rules \<open>ign'\<close> that hold the wildcard for the
  identifier, the merge is the merge of the source without this property: the conflict is
  not raised, and the target keeps its value.
\<close>

theorem scalar_conflict:
  assumes "property_id \<in> scalar_properties" and "property_id \<noteq> ''C''"
    and "node_merge so self before comment ce ign = Inr self1"
    and "map_of self1 property_id = Some (S sv)"
    and "sv \<noteq> ov" and "sv \<noteq> []" and "ov \<noteq> []"
    and "Any \<notin> get_or_empty default_ignore_property_values property_id
               \<union> get_or_empty ign property_id"
    and "Val sv \<notin> get_or_empty default_ignore_property_values property_id
               \<union> get_or_empty ign property_id"
    and "Val ov \<notin> get_or_empty default_ignore_property_values property_id
               \<union> get_or_empty ign property_id"
    and "property_id \<in> real_properties \<longrightarrow>
           (\<exists>a b. py_float sv = Some a \<and> py_float ov = Some b \<and> \<not> isclose a b)"
    and "property_id \<in> text_properties \<longrightarrow> py_lower sv \<noteq> py_lower ov"
    and "Any \<in> get_or_empty ign' property_id"
  shows "node_merge so self (before @ (property_id, S ov) # after) comment ce ign
           = Inl (MergeError_differ property_id sv ov)
         \<and> node_merge so self (before @ (property_id, S ov) # after) comment ce ign'
           = node_merge so self (before @ after) comment ce ign'
         \<and> (\<forall>merged. node_merge so self (before @ (property_id, S ov) # after) comment ce ign'
                        = Inr merged
                      \<and> property_id \<notin> fst ` set (before @ after)
              \<longrightarrow> map_of merged property_id = map_of self property_id)"
proof (intro conjI allI impI)
  define c where "c = (case comment of None \<Rightarrow> [] | Some c \<Rightarrow> c @ [CHR 0x0A])"
  from assms(3) have s1: "merge_items so c ce ign self before = Inr self1"
    unfolding node_merge_def c_def .
  have "merge_property so c ce ign self1 (property_id, S ov)
          = Inl (MergeError_differ property_id sv ov)"
    using merge_property_scalar_differing
      [OF assms(1,2,4,5,6,7,8,9,10), of so c ce] assms(11,12)
    by (auto split: option.splits)
  with s1 show "node_merge so self (before @ (property_id, S ov) # after) comment ce ign
           = Inl (MergeError_differ property_id sv ov)"
    unfolding node_merge_def c_def [symmetric] merge_items_append by simp
next
  define c where "c = (case comment of None \<Rightarrow> [] | Some c \<Rightarrow> c @ [CHR 0x0A])"
  show skip: "node_merge so self (before @ (property_id, S ov) # after) comment ce ign'
           = node_merge so self (before @ after) comment ce ign'"
    unfolding node_merge_def c_def [symmetric] merge_items_append
    by (simp add: merge_property_wildcard [OF assms(1,13)] split: sum.splits)
  fix merged
  assume "node_merge so self (before @ (property_id, S ov) # after) comment ce ign' = Inr merged
            \<and> property_id \<notin> fst ` set (before @ after)"
  with skip have "merge_items so c ce ign' self (before @ after) = Inr merged"
    and "property_id \<notin> fst ` set (before @ after)"
    unfolding node_merge_def c_def by simp_all
  then show "map_of merged property_id = map_of self property_id"
    by (rule merge_items_other_keys)
qed

theorem scalar_conflict_witness:
  "node_merge id [(''RE'', S ''B+Resign'')] [(''RE'', S ''W+3.5'')] None True Map.empty
     = Inl (MergeError_differ ''RE'' ''B+Resign'' ''W+3.5'')
   \<and> node_merge id [(''RE'', S ''B+Resign'')] [(''RE'', S ''W+3.5'')] None True
        [''RE'' \<mapsto> {Any}]
     = Inr [(''RE'', S ''B+Resign'')]"
proof -
  have re: "''RE'' \<in> scalar_properties" "''RE'' \<noteq> ''C''"
    "''RE'' \<in> real_properties \<longrightarrow>
       (\<exists>a b. py_float ''B+Resign'' = Some a \<and> py_float ''W+3.5'' = Some b \<and> \<not> isclose a b)"
    by (simp_all add: scalar_properties_def real_properties_def)
  have lower_differs: "''RE'' \<in> text_properties \<longrightarrow> py_lower ''B+Resign'' \<noteq> py_lower ''W+3.5''"
    by code_simp
  have ign: "Any \<notin> get_or_empty default_ignore_property_values ''RE''
               \<union> get_or_empty Map.empty ''RE''"
    "Val ''B+Resign'' \<notin> get_or_empty default_ignore_property_values ''RE''
               \<union> get_or_empty Map.empty ''RE''"
    "Val ''W+3.5'' \<notin> get_or_empty default_ignore_property_values ''RE''
               \<union> get_or_empty Map.empty ''RE''"
    "Any \<in> get_or_empty [''RE'' \<mapsto> {Any}] ''RE''"
    by (simp_all add: get_or_empty_def default_ignore_property_values_def)
  have start: "node_merge id [(''RE'', S ''B+Resign'')] [] None True Map.empty
      = Inr [(''RE'', S ''B+Resign'')]"
    by (simp add: node_merge_def)
  have skipped: "node_merge id [(''RE'', S ''B+Resign'')] [] None True [''RE'' \<mapsto> {Any}]
      = Inr [(''RE'', S ''B+Resign'')]"
    by (simp add: node_merge_def)
  from scalar_conflict [where property_id = "''RE''" and so = id
      and self = "[(''RE'', S ''B+Resign'')]" and before = "[]" and comment = None
      and ce = True and ign = Map.empty and ?self1.0 = "[(''RE'', S ''B+Resign'')]"
      and sv = "''B+Resign''" and ov = "''W+3.5''" and ign' = "[''RE'' \<mapsto> {Any}]"
      and after = "[]", OF re(1,2) start _ _ _ _ ign(1,2,3) re(3) lower_differs ign(4)]
    skipped
  show ?thesis by simp
qed
lemma real_property_scalar:
  "p \<in> real_properties \<Longrightarrow> p \<in> scalar_properties \<and> p \<noteq> ''C'' \<and> p \<notin> text_properties"
  unfolding real_properties_def scalar_properties_def text_properties_def by auto

text \<open>
  C7 (the komi values \<^verbatim>\<open>4.5\<close> and \<^verbatim>\<open>4.50000001\<close> merge without an error) fails: the values
  differ by \<open>10^-8\<close>, and \<^verbatim>\<open>math.isclose\<close> accepts a difference of at most \<open>10^-9\<close> times
  the larger value, here \<open>4.5 * 10^-9\<close>.  The merge raises the \<^verbatim>\<open>MergeError\<close>.
\<close>

theorem komi_tolerance_counterexample:
  "node_merge id [(''KM'', S ''4.5'')] [(''KM'', S ''4.50000001'')] None True Map.empty
     = Inl (MergeError_differ ''KM'' ''4.5'' ''4.50000001'')"
  by code_simp

text \<open>
  C7 as amended.  Let \<open>property_id\<close> be a numeric identifier, which the target holds with
  the value \<open>sv\<close> when its round of the merge comes (after the properties \<open>before\<close> of the
  source are merged), and the source with the value \<open>ov\<close>; let the values differ as
  strings, be neither empty nor ignored, and be read by \<^verbatim>\<open>float\<close> as the doubles \<open>a\<close> and
  \<open>b\<close>.  If \<^verbatim>\<open>math.isclose(a, b)\<close> holds (with the default relative tolerance \<open>1e-09\<close>),
  the merge raises nothing for this property and goes on as if the source did not hold
  it, and the target keeps its value; otherwise the merge raises the merge conflict.
  Thus \<^verbatim>\<open>4.5\<close> and \<^verbatim>\<open>4.5000000001\<close> merge, while \<^verbatim>\<open>4.5\<close> and \<^verbatim>\<open>4.50000001\<close>, and \<^verbatim>\<open>4.5\<close>
  and \<^verbatim>\<open>5.5\<close>, raise.
\<close>

theorem real_property_tolerance:
  assumes "property_id \<in> real_properties"
    and "node_merge so self before comment ce ign = Inr self1"
    and "map_of self1 property_id = Some (S sv)"
    and "sv \<noteq> ov" and "sv \<noteq> []" and "ov \<noteq> []"
    and "Any \<notin> get_or_empty default_ignore_property_values property_id
               \<union> get_or_empty ign property_id"
    and "Val sv \<notin> get_or_empty default_ignore_property_values property_id
               \<union> get_or_empty ign property_id"
    and "Val ov \<notin> get_or_empty default_ignore_property_values property_id
               \<union> get_or_empty ign property_id"
    and "py_float sv = Some a" and "py_float ov = Some b"
  shows "(isclose a b \<longrightarrow>
            node_merge so self (before @ (property_id, S ov) # after) comment ce ign
              = node_merge so self (before @ after) comment ce ign
            \<and> (\<forall>merged. node_merge so self (before @ (property_id, S ov) # after) comment ce ign
                           = Inr merged
                         \<and> property_id \<notin> fst ` set after
                 \<longrightarrow> map_of merged property_id = Some (S sv)))
         \<and> (\<not> isclose a b \<longrightarrow>
            node_merge so self (before @ (property_id, S ov) # after) comment ce ign
              = Inl (MergeError_differ property_id sv ov))
         \<and> node_merge so [(''KM'', S ''4.5'')] [(''KM'', S ''4.5000000001'')] None True Map.empty
             = Inr [(''KM'', S ''4.5'')]
         \<and> node_merge so [(''KM'', S ''4.5'')] [(''KM'', S ''4.50000001'')] None True Map.empty
             = Inl (MergeError_differ ''KM'' ''4.5'' ''4.50000001'')
         \<and> node_merge so [(''KM'', S ''4.5'')] [(''KM'', S ''5.5'')] None True Map.empty
             = Inl (MergeError_differ ''KM'' ''4.5'' ''5.5'')"
proof -
  define c where "c = (case comment of None \<Rightarrow> [] | Some c \<Rightarrow> c @ [CHR 0x0A])"
  from assms(2) have s1: "merge_items so c ce ign self before = Inr self1"
    unfolding node_merge_def c_def .
  note kind = real_property_scalar [OF assms(1)]
  have step: "merge_property so c ce ign self1 (property_id, S ov)
          = (if isclose a b then Inr self1 else Inl (MergeError_differ property_id sv ov))"
    using assms(1,10,11) kind
    by (subst merge_property_scalar_differing [OF _ _ assms(3,4,5,6,7,8,9)]) auto
  have run: "node_merge so self (before @ (property_id, S ov) # after) comment ce ign
          = (if isclose a b then merge_items so c ce ign self1 after
             else Inl (MergeError_differ property_id sv ov))"
    unfolding node_merge_def c_def [symmetric] merge_items_append
    using s1 step by simp
  have skip: "node_merge so self (before @ after) comment ce ign
          = merge_items so c ce ign self1 after"
    unfolding node_merge_def c_def [symmetric] merge_items_append
    using s1 by simp
  have close: "isclose a b \<longrightarrow>
            node_merge so self (before @ (property_id, S ov) # after) comment ce ign
              = node_merge so self (before @ after) comment ce ign
            \<and> (\<forall>merged. node_merge so self (before @ (property_id, S ov) # after) comment ce ign
                           = Inr merged
                         \<and> property_id \<notin> fst ` set after
                 \<longrightarrow> map_of merged property_id = Some (S sv))"
  proof (intro impI conjI allI)
    assume cl: "isclose a b"
    with run skip
    show "node_merge so self (before @ (property_id, S ov) # after) comment ce ign
              = node_merge so self (before @ after) comment ce ign"
      by simp
    fix merged
    assume "node_merge so self (before @ (property_id, S ov) # after) comment ce ign = Inr merged
              \<and> property_id \<notin> fst ` set after"
    with run cl have "merge_items so c ce ign self1 after = Inr merged"
      and "property_id \<notin> fst ` set after"
      by simp_all
    from merge_items_other_keys [OF this] assms(3)
    show "map_of merged property_id = Some (S sv)" by simp
  qed
  have far: "\<not> isclose a b \<longrightarrow>
            node_merge so self (before @ (property_id, S ov) # after) comment ce ign
              = Inl (MergeError_differ property_id sv ov)"
    using run by simp
  have e1: "node_merge so [(''KM'', S ''4.5'')] [(''KM'', S ''4.5000000001'')] None True Map.empty
             = Inr [(''KM'', S ''4.5'')]"
    by code_simp
  have e2: "node_merge so [(''KM'', S ''4.5'')] [(''KM'', S ''4.50000001'')] None True Map.empty
             = Inl (MergeError_differ ''KM'' ''4.5'' ''4.50000001'')"
    by code_simp
  have e3: "node_merge so [(''KM'', S ''4.5'')] [(''KM'', S ''5.5'')] None True Map.empty
             = Inl (MergeError_differ ''KM'' ''4.5'' ''5.5'')"
    by code_simp
  from close far e1 e2 e3 show ?thesis by blast
qed

text \<open>
  An instance where the doubles decide: \<^verbatim>\<open>0.5\<close> and \<^verbatim>\<open>0.5000000005\<close> differ by \<open>10^-9\<close>
  times the second value as decimal numbers, but the double nearest to \<^verbatim>\<open>0.5000000005\<close>
  lies above it, and \<^verbatim>\<open>math.isclose\<close> is false: the merge raises the conflict.
\<close>

theorem real_property_tolerance_witness:
  "py_float ''0.5'' = Some (Fin (1 / 2))
   \<and> py_float ''0.5000000005'' = Some (Fin (281474976992131 / 562949953421312))
   \<and> \<not> isclose (Fin (1 / 2)) (Fin (281474976992131 / 562949953421312))
   \<and> node_merge rev [(''GM'', S ''1''), (''KM'', S ''0.5'')]
        [(''GM'', S ''1''), (''KM'', S ''0.5000000005''), (''HA'', S ''2'')] None True Map.empty
       = Inl (MergeError_differ ''KM'' ''0.5'' ''0.5000000005'')
   \<and> py_float ''4.5'' = Some (Fin (9 / 2))
   \<and> py_float ''4.5000000001'' = Some (Fin (2533274790452199 / 562949953421312))
   \<and> isclose (Fin (9 / 2)) (Fin (2533274790452199 / 562949953421312))
   \<and> node_merge rev [(''GM'', S ''1''), (''KM'', S ''4.5'')]
        [(''GM'', S ''1''), (''KM'', S ''4.5000000001''), (''HA'', S ''2'')] None True Map.empty
       = node_merge rev [(''GM'', S ''1''), (''KM'', S ''4.5'')]
        [(''GM'', S ''1''), (''HA'', S ''2'')] None True Map.empty"
proof -
  have f1: "py_float ''0.5'' = Some (Fin (1 / 2))" by code_simp
  have f2: "py_float ''0.5000000005'' = Some (Fin (281474976992131 / 562949953421312))"
    by code_simp
  have far: "\<not> isclose (Fin (1 / 2)) (Fin (281474976992131 / 562949953421312))"
    by code_simp
  have g1: "py_float ''4.5'' = Some (Fin (9 / 2))" by code_simp
  have g2: "py_float ''4.5000000001'' = Some (Fin (2533274790452199 / 562949953421312))"
    by code_simp
  have close: "isclose (Fin (9 / 2)) (Fin (2533274790452199 / 562949953421312))"
    by code_simp
  have km: "''KM'' \<in> real_properties" by (simp add: real_properties_def)
  have ign: "Any \<notin> get_or_empty default_ignore_property_values ''KM''
               \<union> get_or_empty Map.empty ''KM''"
    "\<And>v. Val v \<notin> get_or_empty default_ignore_property_values ''KM''
               \<union> get_or_empty Map.empty ''KM''"
    by (simp_all add: get_or_empty_def default_ignore_property_values_def)
  have b1: "node_merge rev [(''GM'', S ''1''), (''KM'', S ''0.5'')] [(''GM'', S ''1'')]
      None True Map.empty = Inr [(''GM'', S ''1''), (''KM'', S ''0.5'')]"
    by code_simp
  have b2: "node_merge rev [(''GM'', S ''1''), (''KM'', S ''4.5'')] [(''GM'', S ''1'')]
      None True Map.empty = Inr [(''GM'', S ''1''), (''KM'', S ''4.5'')]"
    by code_simp
  have r1: "node_merge rev [(''GM'', S ''1''), (''KM'', S ''0.5'')]
        ([(''GM'', S ''1'')] @ (''KM'', S ''0.5000000005'') # [(''HA'', S ''2'')])
        None True Map.empty
       = Inl (MergeError_differ ''KM'' ''0.5'' ''0.5000000005'')"
    using real_property_tolerance [OF km b1 _ _ _ _ ign(1) ign(2) ign(2) f1 f2,
        of "[(''HA'', S ''2'')]"] far
    by simp
  have r2: "node_merge rev [(''GM'', S ''1''), (''KM'', S ''4.5'')]
        ([(''GM'', S ''1'')] @ (''KM'', S ''4.5000000001'') # [(''HA'', S ''2'')])
        None True Map.empty
       = node_merge rev [(''GM'', S ''1''), (''KM'', S ''4.5'')]
        ([(''GM'', S ''1'')] @ [(''HA'', S ''2'')]) None True Map.empty"
    using real_property_tolerance [OF km b2 _ _ _ _ ign(1) ign(2) ign(2) g1 g2,
        of "[(''HA'', S ''2'')]"] close
    by simp
  from f1 f2 far g1 g2 close r1 r2 show ?thesis by simp
qed

section \<open>Merging a tree with a copy of itself\<close>

text \<open>
  The data model: the keys of a node are distinct, and a value is a list exactly for the
  list-valued identifiers.
\<close>

definition typed_node :: "node \<Rightarrow> bool" where
  "typed_node n =
     (distinct (map fst n)
      \<and> list_all (\<lambda>(k, v). case v of S s \<Rightarrow> k \<notin> list_properties
                                    | L xs \<Rightarrow> k \<in> list_properties) n)"

text \<open>
  A node can be classified when \<^verbatim>\<open>node_type\<close> does not raise for it and, if it is a move,
  it holds exactly one of \<^verbatim>\<open>B\<close> and \<^verbatim>\<open>W\<close>: what \<^verbatim>\<open>Node.equivalent\<close> asks of its arguments.
\<close>

definition classified :: "node \<Rightarrow> bool" where
  "classified n =
     (case node_type n of
        Inl e \<Rightarrow> False
      | Inr None \<Rightarrow> True
      | Inr (Some Move) \<Rightarrow> length (players n) = 1
      | Inr (Some t) \<Rightarrow> True)"

definition legal_node :: "node \<Rightarrow> bool" where
  "legal_node n = (typed_node n \<and> classified n)"

text \<open>
  A legally structured tree: every node is legal, and every branch, at any depth, has a
  node to start with (the parser builds no other branches) and is legal.
\<close>

fun legal :: "gametree \<Rightarrow> bool" where
  "legal (GameTree ns bs) =
     (list_all legal_node ns \<and> list_all (\<lambda>b. nodes b \<noteq> [] \<and> legal b) bs)"

lemma equivalent_refl: "classified n \<Longrightarrow> equivalent n n = Inr True"
  unfolding classified_def equivalent_def
  by (auto split: sum.splits option.splits ntype.splits)

lemma merge_property_self:
  assumes "map_of self k = Some v"
    and "k \<in> scalar_properties \<longrightarrow> (\<exists>s. v = S s)"
    and "c = [] \<or> \<not> ce \<or> map_of self ''C'' \<noteq> Some (S [])"
  shows "merge_property so c ce ign self (k, v) = Inr self"
proof (cases "k = ''C''")
  case True
  then have "k \<in> scalar_properties" by (simp add: scalar_properties_def)
  with assms(2) obtain s where v: "v = S s" by blast
  show ?thesis
    using assms(1,3) unfolding merge_property_def v True
    by (auto simp: Let_def node_set_idem split: bool.splits)
next
  case False
  show ?thesis
  proof (cases "k \<in> scalar_properties")
    case True
    with assms(2) obtain s where v: "v = S s" by blast
    show ?thesis
      using assms(1) False True unfolding merge_property_def v
      by (auto simp: Let_def split: bool.splits)
  next
    case scalar: False
    show ?thesis
      using assms(1) False scalar unfolding merge_property_def
      by (auto simp: Let_def split: bool.splits)
  qed
qed

lemma merge_items_self:
  assumes "\<forall>(k, v) \<in> set items. map_of self k = Some v
              \<and> (k \<in> scalar_properties \<longrightarrow> (\<exists>s. v = S s))"
    and "c = [] \<or> \<not> ce \<or> map_of self ''C'' \<noteq> Some (S [])"
  shows "merge_items so c ce ign self items = Inr self"
  using assms(1)
proof (induction items)
  case Nil
  then show ?case by simp
next
  case (Cons item items)
  obtain k v where item: "item = (k, v)" by (cases item)
  from Cons.prems have "map_of self k = Some v"
    and "k \<in> scalar_properties \<longrightarrow> (\<exists>s. v = S s)"
    unfolding item by auto
  then have "merge_property so c ce ign self (k, v) = Inr self"
    using assms(2) by (rule merge_property_self)
  with Cons show ?case unfolding item by simp
qed

lemma scalar_not_list: "k \<in> scalar_properties \<Longrightarrow> k \<notin> list_properties"
  using list_property_not_scalar by blast

lemma node_merge_self:
  assumes "typed_node n"
    and "comment = None \<or> \<not> ce \<or> map_of n ''C'' \<noteq> Some (S [])"
  shows "node_merge so n n comment ce ign = Inr n"
proof -
  from assms(1) have d: "distinct (map fst n)"
    and ty: "\<forall>(k, v) \<in> set n. case v of S s \<Rightarrow> k \<notin> list_properties
                                       | L xs \<Rightarrow> k \<in> list_properties"
    unfolding typed_node_def by (auto simp: list_all_iff)
  have "\<forall>(k, v) \<in> set n. map_of n k = Some v
              \<and> (k \<in> scalar_properties \<longrightarrow> (\<exists>s. v = S s))"
  proof (clarify, rule conjI)
    fix k v assume kv: "(k, v) \<in> set n"
    with d show "map_of n k = Some v" by simp
    from ty kv have "case v of S s \<Rightarrow> k \<notin> list_properties | L xs \<Rightarrow> k \<in> list_properties"
      by fastforce
    then show "k \<in> scalar_properties \<longrightarrow> (\<exists>s. v = S s)"
      by (cases v) (auto dest: scalar_not_list)
  qed
  moreover from assms(2)
  have "(case comment of None \<Rightarrow> [] | Some c \<Rightarrow> c @ [CHR 0x0A]) = [] \<or> \<not> ce
          \<or> map_of n ''C'' \<noteq> Some (S [])"
    by (cases comment) auto
  ultimately show ?thesis
    unfolding node_merge_def by (rule merge_items_self)
qed

lemma walk_self:
  "list_all legal_node ns \<Longrightarrow> walk so None ce ign ns ns = Inr (ns, [], [], False)"
proof (induction ns)
  case Nil
  then show ?case by simp
next
  case (Cons n ns)
  then have "equivalent n n = Inr True" and "node_merge so n n None ce ign = Inr n"
    by (simp_all add: legal_node_def equivalent_refl node_merge_self)
  with Cons show ?case by simp
qed

lemma merge_branches_self:
  assumes "\<forall>b \<in> set bs. nodes b \<noteq> [] \<and> classified (hd (nodes b))
              \<and> gametree_merge so b b None ce ign = Inr b"
  shows "merge_branches so bs bs None ce ign = Inr (bs, [])"
  using assms
proof (induction bs)
  case Nil
  then show ?case by simp
next
  case (Cons b bs)
  then obtain n ns where nb: "nodes b = n # ns" and cl: "classified n"
    and mb: "gametree_merge so b b None ce ign = Inr b"
    by (cases "nodes b") auto
  from nb cl have "find_match b (b # bs) = Inr (Some (b, bs))"
    by (simp add: equivalent_refl)
  with mb Cons show ?case by simp
qed

text \<open>
  C3.  For every legally structured tree \<open>T\<close>, merging a copy of \<open>T\<close> into \<open>T\<close> with no
  comment prefix returns \<open>T\<close> unchanged: the same trunk, the same branches, the same
  properties in every node.  This holds for every table of ignore rules (an ignored
  property is skipped) and for either setting of \<^verbatim>\<open>comments_everywhere\<close>.
\<close>

theorem merge_idempotent:
  "legal T \<Longrightarrow> gametree_merge so T T None ce ign = Inr T"
proof (induction T)
  case (GameTree ns bs)
  from GameTree.prems have ln: "list_all legal_node ns"
    and lb: "\<forall>b \<in> set bs. nodes b \<noteq> [] \<and> legal b"
    by (simp_all add: list_all_iff)
  from walk_self [OF ln]
  have w: "walk so None ce ign ns ns = Inr (ns, [], [], False)" .
  show ?case
  proof (cases "bs = []")
    case True
    with w have "merge_prepare so (GameTree ns bs) (GameTree ns bs) None ce ign
        = Inr (Done (GameTree ns bs))"
      unfolding merge_prepare_def by (cases ns) auto
    then show ?thesis by (simp add: gametree_merge.simps)
  next
    case False
    with w have prep: "merge_prepare so (GameTree ns bs) (GameTree ns bs) None ce ign
        = Inr (Reconcile ns bs bs)"
      unfolding merge_prepare_def by auto
    have "\<forall>b \<in> set bs. nodes b \<noteq> [] \<and> classified (hd (nodes b))
              \<and> gametree_merge so b b None ce ign = Inr b"
    proof
      fix b assume b: "b \<in> set bs"
      with lb have nb: "nodes b \<noteq> []" and leg: "legal b" by auto
      from leg nb have "classified (hd (nodes b))"
        by (cases b; cases "nodes b") (auto simp: legal_node_def)
      with nb GameTree.IH [OF b leg]
      show "nodes b \<noteq> [] \<and> classified (hd (nodes b))
              \<and> gametree_merge so b b None ce ign = Inr b"
        by simp
    qed
    then have "merge_branches so bs bs None ce ign = Inr (bs, [])"
      by (rule merge_branches_self)
    with prep show ?thesis by (simp add: gametree_merge.simps)
  qed
qed

text \<open>
  An instance, the game of the test suite: a root, three moves, and two variations of two
  moves each, with comments.
\<close>

definition test_game :: gametree where
  "test_game = GameTree
     [[(''GM'', S ''1''), (''FF'', S ''4''), (''CA'', S ''UTF-8'')],
      [(''W'', S ''pp'')],
      [(''B'', S ''nq'')],
      [(''W'', S ''oq''), (''C'', S ''comment 1'')]]
     [GameTree [[(''B'', S ''qc''), (''C'', S ''comment 2'')], [(''W'', S ''kc'')]] [],
      GameTree [[(''B'', S ''hc'')], [(''W'', S ''oe'')]] []]"

theorem merge_idempotent_witness:
  "legal test_game \<and> gametree_merge id test_game test_game None True Map.empty = Inr test_game"
proof -
  have "legal test_game" by code_simp
  with merge_idempotent [of test_game id True Map.empty] show ?thesis by simp
qed

text \<open>
  The hypothesis is needed.  A node that holds nothing but a comment which is not empty
  cannot be classified: \<^verbatim>\<open>node_type\<close> raises the \<^verbatim>\<open>PropertyError\<close>, and so does the merge of
  the tree with itself.
\<close>

lemma merge_unclassified_node:
  "\<not> legal (GameTree [[(''GM'', S ''1'')], [(''C'', S ''hello'')]] [])
   \<and> gametree_merge id (GameTree [[(''GM'', S ''1'')], [(''C'', S ''hello'')]] [])
        (GameTree [[(''GM'', S ''1'')], [(''C'', S ''hello'')]] []) None True Map.empty
     = Inl PropertyError"
  by code_simp
section \<open>Divergence of two trunks\<close>

text \<open>
  C4 at a failing input.  The target is the trunk \<open>[n1, n2]\<close> and the source the trunk
  \<open>[n1, n3]\<close>, where \<open>n1\<close> holds the empty comment \<^verbatim>\<open>C[]\<close>, \<open>n2\<close> is \<^verbatim>\<open>B[aa]\<close> and \<open>n3\<close> is
  \<^verbatim>\<open>B[bb]\<close>, and the prefix \<^verbatim>\<open>X\<close> is given.  The branches are as C4 states, \<open>[n2]\<close> and
  \<open>[n3]\<close> with the prefix in \<open>n3\<close>, but the trunk of the target is not \<open>[n1]\<close>: the round of
  \<^verbatim>\<open>Node.merge\<close> for the comment writes the prefix and a line feed into the empty comment of
  \<open>n1\<close>, although the comment of the source is the same.  The docstring of \<^verbatim>\<open>Node.merge\<close>
  prefixes a differing comment only, and so does the code where the comment of the target
  is not empty.
\<close>

theorem divergence_trunk_failing_input:
  "equivalent [(''C'', S [])] [(''C'', S [])] = Inr True
   \<and> equivalent [(''B'', S ''aa'')] [(''B'', S ''bb'')] = Inr False
   \<and> gametree_merge id (GameTree [[(''C'', S [])], [(''B'', S ''aa'')]] [])
        (GameTree [[(''C'', S [])], [(''B'', S ''bb'')]] []) (Some ''X'') True Map.empty
     = Inr (GameTree [[(''C'', S ''X\<newline>'')]]
              [GameTree [[(''B'', S ''aa'')]] [],
               GameTree [[(''B'', S ''bb''), (''C'', S ''X'')]] []])
   \<and> [[(''C'', S ''X\<newline>'')]] \<noteq> [[(''C'', S [])]]"
  by code_simp

text \<open>
  Everywhere else the merge does what C4 states.  Let the target be the trunk \<open>[n1, n2]\<close>
  with the branches \<open>bs\<close> and the source the trunk \<open>[n1, n3]\<close> with the branches \<open>cs\<close>,
  where \<open>n1\<close> is equivalent to itself and \<open>n2\<close> is not equivalent to \<open>n3\<close>.  The merge cuts
  the trunk of the target down to the one node \<open>m1\<close> that the merge of \<open>n1\<close> with itself
  returns, and gives the target exactly two branches: \<open>[n2]\<close> with the former branches of
  the target, then \<open>[n3']\<close> with the branches of the source, where \<open>n3'\<close> is \<open>n3\<close> with the
  comment prefix (\<open>n3\<close> itself if none is given).  The node \<open>m1\<close> is \<open>n1\<close> whenever no
  prefix is given, or the prefix is not applied everywhere, or \<open>n1\<close> holds no empty comment.
\<close>

theorem divergence_makes_two_branches:
  assumes "equivalent n1 n1 = Inr True"
    and "equivalent n2 n3 = Inr False"
    and "node_merge so n1 n1 comment ce ign = Inr m1"
    and "node_prefix_comment comment n3 = Inr n3'"
  shows "gametree_merge so (GameTree [n1, n2] bs) (GameTree [n1, n3] cs) comment ce ign
           = Inr (GameTree [m1] [GameTree [n2] bs, GameTree [n3'] cs])
         \<and> (typed_node n1 \<and> (comment = None \<or> \<not> ce \<or> map_of n1 ''C'' \<noteq> Some (S []))
              \<longrightarrow> m1 = n1)"
proof
  have w: "walk so comment ce ign [n1, n2] [n1, n3] = Inr ([m1], [n2], [n3], True)"
    using assms(1,2,3) by simp
  have init: "gametree_init [n3] cs comment = Inr (GameTree [n3'] cs)"
    using assms(4) unfolding gametree_init_def
    by (auto simp: node_prefix_comment_def)
  from w init
  have "merge_prepare so (GameTree [n1, n2] bs) (GameTree [n1, n3] cs) comment ce ign
          = Inr (Done (GameTree [m1] [GameTree [n2] bs, GameTree [n3'] cs]))"
    unfolding merge_prepare_def by simp
  then show "gametree_merge so (GameTree [n1, n2] bs) (GameTree [n1, n3] cs) comment ce ign
           = Inr (GameTree [m1] [GameTree [n2] bs, GameTree [n3'] cs])"
    by (simp add: gametree_merge.simps)
next
  show "typed_node n1 \<and> (comment = None \<or> \<not> ce \<or> map_of n1 ''C'' \<noteq> Some (S []))
              \<longrightarrow> m1 = n1"
    using assms(3) node_merge_self [of n1 comment ce so ign] by auto
qed

theorem divergence_makes_two_branches_witness:
  "equivalent [(''B'', S ''aa'')] [(''B'', S ''aa'')] = Inr True
   \<and> equivalent [(''W'', S ''bb''), (''C'', S ''good'')] [(''W'', S ''cc'')] = Inr False
   \<and> gametree_merge id
        (GameTree [[(''B'', S ''aa'')], [(''W'', S ''bb''), (''C'', S ''good'')]]
           [GameTree [[(''B'', S ''dd'')]] [], GameTree [[(''B'', S ''ee'')]] []])
        (GameTree [[(''B'', S ''aa'')], [(''W'', S ''cc'')]] [])
        (Some ''X'') True Map.empty
     = Inr (GameTree [[(''B'', S ''aa'')]]
              [GameTree [[(''W'', S ''bb''), (''C'', S ''good'')]]
                 [GameTree [[(''B'', S ''dd'')]] [], GameTree [[(''B'', S ''ee'')]] []],
               GameTree [[(''W'', S ''cc''), (''C'', S ''X'')]] []])"
proof -
  have e1: "equivalent [(''B'', S ''aa'')] [(''B'', S ''aa'')] = Inr True" by code_simp
  have e2: "equivalent [(''W'', S ''bb''), (''C'', S ''good'')] [(''W'', S ''cc'')] = Inr False"
    by code_simp
  have m: "node_merge id [(''B'', S ''aa'')] [(''B'', S ''aa'')] (Some ''X'') True Map.empty
      = Inr [(''B'', S ''aa'')]"
    by code_simp
  have p: "node_prefix_comment (Some ''X'') [(''W'', S ''cc'')]
      = Inr [(''W'', S ''cc''), (''C'', S ''X'')]"
    by code_simp
  from divergence_makes_two_branches [OF e1 e2 m p] e1 e2 show ?thesis by simp
qed

section \<open>A tree that is not closed\<close>




section \<open>Parsing the bytes of a parsed collection\<close>


text \<open>
  With the charset declared before the comment, the same comment comes back: the parser
  reads \<^verbatim>\<open>CA[latin-1]\<close>, the node holds \<^verbatim>\<open>CA[UTF-8]\<close>, and the bytes of the collection are
  read as UTF-8.
\<close>

lemma round_trip_declared_charset:
  "parse py_decode (''(;CA[latin-1]C['' @ [CHR 0xE9] @ ''])'')
     = Inr [GameTree [[(''CA'', S ''UTF-8''), (''C'', S [CHR 0xE9])]] []]
   \<and> collection_bytes [GameTree [[(''CA'', S ''UTF-8''), (''C'', S [CHR 0xE9])]] []]
     = Inr (''(\<newline>;CA[UTF-8]C['' @ [CHR 0xC3, CHR 0xA9] @ '']\<newline>)'')
   \<and> parse py_decode (''(\<newline>;CA[UTF-8]C['' @ [CHR 0xC3, CHR 0xA9] @ '']\<newline>)'')
     = Inr [GameTree [[(''CA'', S ''UTF-8''), (''C'', S [CHR 0xE9])]] []]"
  by code_simp

end
